theory Spec2Isabelle
  imports Main
begin

section \<open>JSON values and their encoding\<close>

text \<open>
  The plugin server (the Go part of \<^verbatim>\<open>github-dashboard/releases/v1.0.0/component.js\<close>,
  lines 936 to 1206) exchanges newline-delimited JSON.  A decoded JSON value is what Go's
  \<^verbatim>\<open>interface{}\<close> holds after \<^verbatim>\<open>json.Unmarshal\<close>: nil, a bool, a number, a string, a
  slice or a \<^verbatim>\<open>map[string]interface{}\<close>.  A number carries the text Go prints for it, so
  no floating-point arithmetic is needed.  \<open>JUnsupported\<close> stands for any other Go value,
  one that \<^verbatim>\<open>encoding/json\<close> refuses to encode (a channel, a function, a NaN):
  \<^verbatim>\<open>json.Unmarshal\<close> never produces one, but the map a plugin returns from \<^verbatim>\<open>GetInfo\<close> may
  hold one.  A Go map is an association list whose keys are
  looked up with \<open>map_of\<close>.  For the two maps the server itself holds, \<^verbatim>\<open>Request.Data\<close>
  and \<^verbatim>\<open>Response.Result\<close>, the nil map and the empty map are both \<open>[]\<close>: they read
  alike, and \<^verbatim>\<open>omitempty\<close> drops both.
\<close>

datatype jvalue =
    JNull
  | JBool bool
  | JNum string
  | JStr string
  | JArr "jvalue list"
  | JObj "(string \<times> jvalue) list"
  | JUnsupported

type_synonym jobject = "(string \<times> jvalue) list"

text \<open>Byte-wise string comparison: the order in which \<^verbatim>\<open>json.Marshal\<close> emits map keys.\<close>

fun keyLess :: "string \<Rightarrow> string \<Rightarrow> bool" where
  "keyLess [] [] = False"
| "keyLess [] (b # bs) = True"
| "keyLess (a # as) [] = False"
| "keyLess (a # as) (b # bs) =
     (if (of_char a :: nat) < of_char b then True
      else if (of_char b :: nat) < of_char a then False
      else keyLess as bs)"

fun insertKey :: "string \<times> 'a \<Rightarrow> (string \<times> 'a) list \<Rightarrow> (string \<times> 'a) list" where
  "insertKey kv [] = [kv]"
| "insertKey kv (x # xs) =
     (if keyLess (fst x) (fst kv) then x # insertKey kv xs else kv # x # xs)"

definition sortKeys :: "(string \<times> 'a) list \<Rightarrow> (string \<times> 'a) list" where
  "sortKeys kvs = foldr insertKey kvs []"

fun join :: "string \<Rightarrow> string list \<Rightarrow> string" where
  "join sep [] = []"
| "join sep [x] = x"
| "join sep (x # y # ys) = x @ sep @ join sep (y # ys)"

definition hexDigit :: "nat \<Rightarrow> char" where
  "hexDigit n = (''0123456789abcdef'') ! (n mod 16)"

text \<open>
  String escaping of \<^verbatim>\<open>encoding/json\<close> with HTML escaping on (the default of both
  \<^verbatim>\<open>json.Marshal\<close> and \<^verbatim>\<open>json.NewEncoder\<close>).  A byte below 0x80: backslash and double
  quote get a backslash, the usual short escapes, every other control byte and \<^verbatim>\<open><\<close>,
  \<^verbatim>\<open>>\<close>, \<^verbatim>\<open>&\<close> become \<^verbatim>\<open>\u00XX\<close>, the rest is copied.
\<close>

definition escapeByte :: "char \<Rightarrow> string" where
  "escapeByte c =
     (if c = CHR 0x5C \<or> c = CHR 0x22 then [CHR 0x5C, c]
      else if c = CHR 0x08 then [CHR 0x5C, CHR ''b'']
      else if c = CHR 0x0C then [CHR 0x5C, CHR ''f'']
      else if c = CHR 0x0A then [CHR 0x5C, CHR ''n'']
      else if c = CHR 0x0D then [CHR 0x5C, CHR ''r'']
      else if c = CHR 0x09 then [CHR 0x5C, CHR ''t'']
      else if (of_char c :: nat) < 32 \<or> c = CHR ''<'' \<or> c = CHR ''>'' \<or> c = CHR ''&''
        then [CHR 0x5C, CHR ''u'', CHR ''0'', CHR ''0'',
              hexDigit (of_char c div 16), hexDigit (of_char c)]
      else [c])"

text \<open>
  From 0x80 on the encoder decodes one UTF-8 sequence (\<^verbatim>\<open>utf8.DecodeRuneInString\<close>).
  \<open>runeSize\<close> is the length of a well-formed sequence at the head of the bytes, by the
  ranges the decoder accepts for the first and second byte, and 0 where there is none.
\<close>

definition byteIn :: "nat \<Rightarrow> nat \<Rightarrow> char \<Rightarrow> bool" where
  "byteIn lo hi c = (lo \<le> of_char c \<and> (of_char c :: nat) \<le> hi)"

fun continuation :: "nat \<Rightarrow> string \<Rightarrow> bool" where
  "continuation 0 bs = True"
| "continuation (Suc n) [] = False"
| "continuation (Suc n) (b # bs) = (byteIn 0x80 0xBF b \<and> continuation n bs)"

definition sequenceOf :: "nat \<Rightarrow> nat \<Rightarrow> nat \<Rightarrow> string \<Rightarrow> nat" where
  "sequenceOf n lo hi rest =
     (case rest of
        [] \<Rightarrow> 0
      | b1 # later \<Rightarrow> if byteIn lo hi b1 \<and> continuation (n - 2) later then n else 0)"

definition runeSize :: "string \<Rightarrow> nat" where
  "runeSize bs =
     (case bs of
        [] \<Rightarrow> 0
      | b0 # rest \<Rightarrow>
          (if byteIn 0xC2 0xDF b0 then sequenceOf 2 0x80 0xBF rest
           else if byteIn 0xE0 0xE0 b0 then sequenceOf 3 0xA0 0xBF rest
           else if byteIn 0xE1 0xEC b0 then sequenceOf 3 0x80 0xBF rest
           else if byteIn 0xED 0xED b0 then sequenceOf 3 0x80 0x9F rest
           else if byteIn 0xEE 0xEF b0 then sequenceOf 3 0x80 0xBF rest
           else if byteIn 0xF0 0xF0 b0 then sequenceOf 4 0x90 0xBF rest
           else if byteIn 0xF1 0xF3 b0 then sequenceOf 4 0x80 0xBF rest
           else if byteIn 0xF4 0xF4 b0 then sequenceOf 4 0x80 0x8F rest
           else 0))"

text \<open>
  A byte that starts no well-formed sequence is written \<^verbatim>\<open>\ufffd\<close> and the encoder moves
  on by one byte; U+2028 and U+2029 (the bytes E2 80 A8 and E2 80 A9) are written
  \<^verbatim>\<open>\u2028\<close> and \<^verbatim>\<open>\u2029\<close>; every other sequence is copied.
\<close>

function escapeString :: "string \<Rightarrow> string" where
  "escapeString [] = []"
| "escapeString (c # cs) =
     (if (of_char c :: nat) < 128 then escapeByte c @ escapeString cs
      else if runeSize (c # cs) = 0
        then [CHR 0x5C, CHR ''u'', CHR ''f'', CHR ''f'', CHR ''f'', CHR ''d''] @ escapeString cs
      else if take 3 (c # cs) = [CHR 0xE2, CHR 0x80, CHR 0xA8]
        then [CHR 0x5C, CHR ''u'', CHR ''2'', CHR ''0'', CHR ''2'', CHR ''8'']
               @ escapeString (drop 2 cs)
      else if take 3 (c # cs) = [CHR 0xE2, CHR 0x80, CHR 0xA9]
        then [CHR 0x5C, CHR ''u'', CHR ''2'', CHR ''0'', CHR ''2'', CHR ''9'']
               @ escapeString (drop 2 cs)
      else take (runeSize (c # cs)) (c # cs) @ escapeString (drop (runeSize (c # cs) - 1) cs))"
  by pat_completeness auto
termination
  by (relation "measure length") auto

definition quote :: "string \<Rightarrow> string" where
  "quote s = [CHR 0x22] @ escapeString s @ [CHR 0x22]"

definition marshalMembers :: "(string \<times> string) list \<Rightarrow> string" where
  "marshalMembers kts =
     ''{'' @ join '','' (map (\<lambda>(k, t). quote k @ '':'' @ t) (sortKeys kts)) @ ''}''"

text \<open>
  \<open>render\<close> is the text of a value that can be encoded, \<open>encodable\<close> says whether it
  can.  \<^verbatim>\<open>json.Marshal\<close> returns an error and no bytes as soon as one value inside is
  refused, so \<open>marshal\<close>, which is \<^verbatim>\<open>json.Marshal\<close> with its error dropped as in
  \<^verbatim>\<open>dataBytes, _ := json.Marshal(data)\<close>, is then empty.
\<close>

fun render :: "jvalue \<Rightarrow> string" where
  "render JNull = ''null''"
| "render (JBool b) = (if b then ''true'' else ''false'')"
| "render (JNum t) = t"
| "render (JStr s) = quote s"
| "render (JArr xs) = ''['' @ join '','' (map render xs) @ '']''"
| "render (JObj kvs) = marshalMembers (map (\<lambda>(k, v). (k, render v)) kvs)"
| "render JUnsupported = []"

fun encodable :: "jvalue \<Rightarrow> bool" where
  "encodable JUnsupported = False"
| "encodable (JArr xs) = list_all encodable xs"
| "encodable (JObj kvs) = list_all (\<lambda>(k, v). encodable v) kvs"
| "encodable v = True"

definition marshal :: "jvalue \<Rightarrow> string" where
  "marshal v = (if encodable v then render v else [])"

section \<open>Wire types and the plugin interface\<close>

record Request =
  Method :: string
  Action :: string
  Data :: jobject

record Response =
  Success :: bool
  Result :: jobject
  Error :: string

text \<open>
  \<^verbatim>\<open>json.Marshal\<close> of a \<open>Response\<close>: \<^verbatim>\<open>success\<close> always, \<^verbatim>\<open>result\<close> and \<^verbatim>\<open>error\<close>
  only when non-empty (both fields are tagged \<^verbatim>\<open>omitempty\<close>).  It fails, with no bytes,
  when the result holds a value that cannot be encoded (\<open>encodes\<close> is false).
  \<^verbatim>\<open>Encoder.Encode\<close> marshals first and returns the error without writing; otherwise it
  writes the text followed by a newline.  \<open>Encode\<close> is what it writes.
\<close>

definition encodes :: "Response \<Rightarrow> bool" where
  "encodes r = encodable (JObj (Result r))"

definition marshalResponse :: "Response \<Rightarrow> string" where
  "marshalResponse r =
     (if encodes r then
        ''{'' @ quote ''success'' @ '':'' @ marshal (JBool (Success r))
          @ (if Result r = [] then []
             else '','' @ quote ''result'' @ '':'' @ marshal (JObj (Result r)))
          @ (if Error r = [] then [] else '','' @ quote ''error'' @ '':'' @ quote (Error r))
          @ ''}''
      else [])"

definition Encode :: "Response \<Rightarrow> string" where
  "Encode r = (if encodes r then marshalResponse r @ [CHR 0x0A] else [])"

text \<open>
  The \<^verbatim>\<open>PluginAPI\<close> interface.  An implementation is any Go value, so each method is a
  function on the implementation's own state \<open>'p\<close>.  A Go \<^verbatim>\<open>error\<close> is \<open>None\<close> for nil
  and \<open>Some text\<close> for an error whose \<^verbatim>\<open>Error()\<close> is \<open>text\<close>; \<^verbatim>\<open>HandleRequest\<close>
  returns \<open>Inl text\<close> for an error and \<open>Inr bytes\<close> otherwise.
\<close>

record 'p PluginAPI =
  Initialize :: "jobject \<Rightarrow> 'p \<Rightarrow> string option \<times> 'p"
  Start :: "'p \<Rightarrow> string option \<times> 'p"
  Stop :: "'p \<Rightarrow> string option \<times> 'p"
  GetInfo :: "'p \<Rightarrow> jobject \<times> 'p"
  HandleRequest :: "string \<Rightarrow> string \<Rightarrow> string \<Rightarrow> 'p \<Rightarrow> (string + string) \<times> 'p"
  HealthCheck :: "string \<Rightarrow> 'p \<Rightarrow> string option \<times> 'p"

text \<open>The calls the server makes on the implementation, recorded in order.\<close>

datatype pluginCall =
    CallInitialize jobject
  | CallStart
  | CallStop
  | CallGetInfo
  | CallHandleRequest string string string
  | CallHealthCheck string

text \<open>
  What a \<^verbatim>\<open>PluginServer\<close> holds that the request handlers read or change: the
  implementation behind \<^verbatim>\<open>s.plugin\<close> and, as a record of what happened, the calls made
  on it.  The struct has no other mutable field besides the listener and the context, which
  the handlers never touch.
\<close>

record 'p PluginServer =
  plugin :: 'p
  invoked :: "pluginCall list"

text \<open>
  \<^verbatim>\<open>json.Unmarshal\<close> belongs to Go's library, not to this repository; the server is
  modelled for any decoder.  \<open>unmarshalRequest\<close> decodes a line into a \<open>Request\<close> or
  gives the error's text; \<open>unmarshalValue\<close> decodes bytes into an \<^verbatim>\<open>interface{}\<close>.
\<close>

record decoder =
  unmarshalRequest :: "string \<Rightarrow> string + Request"
  unmarshalValue :: "string \<Rightarrow> jvalue option"

section \<open>The request handlers\<close>

text \<open>
  The three reads of \<^verbatim>\<open>req.Data\<close>: \<^verbatim>\<open>req.Data["check_name"].(string)\<close> (the empty string
  when the key is absent or not a string), \<^verbatim>\<open>req.Data["config"].(map[string]interface{})\<close>
  with its \<^verbatim>\<open>ok\<close>, and \<^verbatim>\<open>req.Data["data"]\<close> (nil when absent).
\<close>

definition checkNameOf :: "Request \<Rightarrow> string" where
  "checkNameOf req = (case map_of (Data req) ''check_name'' of Some (JStr n) \<Rightarrow> n | _ \<Rightarrow> '''')"

definition configOf :: "Request \<Rightarrow> jobject option" where
  "configOf req = (case map_of (Data req) ''config'' of Some (JObj c) \<Rightarrow> Some c | _ \<Rightarrow> None)"

definition actionData :: "Request \<Rightarrow> jvalue" where
  "actionData req = (case map_of (Data req) ''data'' of Some v \<Rightarrow> v | None \<Rightarrow> JNull)"

definition handleHealthCheck ::
  "'p PluginAPI \<Rightarrow> Request \<Rightarrow> 'p PluginServer \<Rightarrow> Response \<times> 'p PluginServer" where
  "handleHealthCheck P req s =
     (let checkName = checkNameOf req;
          (err, p') = HealthCheck P checkName (plugin s);
          s' = s\<lparr>plugin := p', invoked := invoked s @ [CallHealthCheck checkName]\<rparr>
      in case err of
           Some e \<Rightarrow>
             (\<lparr>Success = True,
               Result = [(''healthy'', JBool False), (''message'', JStr e)],
               Error = ''''\<rparr>, s')
         | None \<Rightarrow>
             (\<lparr>Success = True,
               Result = [(''healthy'', JBool True), (''message'', JStr ''OK'')],
               Error = ''''\<rparr>, s'))"

definition handleExecuteAction ::
  "decoder \<Rightarrow> 'p PluginAPI \<Rightarrow> Request \<Rightarrow> 'p PluginServer \<Rightarrow> Response \<times> 'p PluginServer" where
  "handleExecuteAction D P req s =
     (let data = actionData req;
          dataBytes = marshal data;
          (res, p') = HandleRequest P ''POST'' ''/execute'' dataBytes (plugin s);
          s' = s\<lparr>plugin := p',
                 invoked := invoked s @ [CallHandleRequest ''POST'' ''/execute'' dataBytes]\<rparr>
      in case res of
           Inl e \<Rightarrow> (\<lparr>Success = False, Result = [], Error = e\<rparr>, s')
         | Inr result \<Rightarrow>
             (let resultData = (case unmarshalValue D result of Some v \<Rightarrow> v | None \<Rightarrow> JNull)
              in (\<lparr>Success = True, Result = [(''result'', resultData)], Error = ''''\<rparr>, s')))"

definition handleGetInfo ::
  "'p PluginAPI \<Rightarrow> Request \<Rightarrow> 'p PluginServer \<Rightarrow> Response \<times> 'p PluginServer" where
  "handleGetInfo P req s =
     (let (info, p') = GetInfo P (plugin s)
      in (\<lparr>Success = True, Result = info, Error = ''''\<rparr>,
          s\<lparr>plugin := p', invoked := invoked s @ [CallGetInfo]\<rparr>))"

definition handleInitialize ::
  "'p PluginAPI \<Rightarrow> Request \<Rightarrow> 'p PluginServer \<Rightarrow> Response \<times> 'p PluginServer" where
  "handleInitialize P req s =
     (case configOf req of
        Some config \<Rightarrow>
          (let (err, p') = Initialize P config (plugin s);
               s' = s\<lparr>plugin := p', invoked := invoked s @ [CallInitialize config]\<rparr>
           in case err of
                Some e \<Rightarrow> (\<lparr>Success = False, Result = [], Error = e\<rparr>, s')
              | None \<Rightarrow> (\<lparr>Success = True, Result = [], Error = ''''\<rparr>, s'))
      | None \<Rightarrow> (\<lparr>Success = False, Result = [], Error = ''config is required''\<rparr>, s))"

definition handleStart ::
  "'p PluginAPI \<Rightarrow> Request \<Rightarrow> 'p PluginServer \<Rightarrow> Response \<times> 'p PluginServer" where
  "handleStart P req s =
     (let (err, p') = Start P (plugin s);
          s' = s\<lparr>plugin := p', invoked := invoked s @ [CallStart]\<rparr>
      in case err of
           Some e \<Rightarrow> (\<lparr>Success = False, Result = [], Error = e\<rparr>, s')
         | None \<Rightarrow> (\<lparr>Success = True, Result = [], Error = ''''\<rparr>, s'))"

definition handleStop ::
  "'p PluginAPI \<Rightarrow> Request \<Rightarrow> 'p PluginServer \<Rightarrow> Response \<times> 'p PluginServer" where
  "handleStop P req s =
     (let (err, p') = Stop P (plugin s);
          s' = s\<lparr>plugin := p', invoked := invoked s @ [CallStop]\<rparr>
      in case err of
           Some e \<Rightarrow> (\<lparr>Success = False, Result = [], Error = e\<rparr>, s')
         | None \<Rightarrow> (\<lparr>Success = True, Result = [], Error = ''''\<rparr>, s'))"

definition handleRequest ::
  "decoder \<Rightarrow> 'p PluginAPI \<Rightarrow> Request \<Rightarrow> 'p PluginServer \<Rightarrow> Response \<times> 'p PluginServer" where
  "handleRequest D P req s =
     (if Method req = ''health_check'' then handleHealthCheck P req s
      else if Method req = ''execute_action'' then handleExecuteAction D P req s
      else if Method req = ''get_info'' then handleGetInfo P req s
      else if Method req = ''initialize'' then handleInitialize P req s
      else if Method req = ''start'' then handleStart P req s
      else if Method req = ''stop'' then handleStop P req s
      else (\<lparr>Success = False, Result = [], Error = ''unknown method: '' @ Method req\<rparr>, s))"

section \<open>One connection\<close>

text \<open>
  The connection's input is the sequence of lines the peer sends, each as the bytes that
  stand before its newline.  \<^verbatim>\<open>bufio.NewScanner\<close> is used with its default buffer, which
  grows to \<^verbatim>\<open>bufio.MaxScanTokenSize\<close> = 64 * 1024 bytes and has to hold a line together
  with its newline: \<^verbatim>\<open>scanner.Scan()\<close> yields a line of fewer bytes than that, with one
  trailing carriage return dropped (\<^verbatim>\<open>bufio.ScanLines\<close>), and on a longer one it fails
  with \<^verbatim>\<open>ErrTooLong\<close> and reads no more.
\<close>

definition maxScanTokenSize :: nat where
  "maxScanTokenSize = 65536"

definition dropCR :: "string \<Rightarrow> string" where
  "dropCR data = (if data \<noteq> [] \<and> last data = CHR 0x0D then butlast data else data)"

text \<open>
  \<open>handleConnection\<close> runs the scanner loop over these lines and returns what it does to
  the connection, in order: for every \<^verbatim>\<open>encoder.Encode(response)\<close> either \<open>Write\<close>, when
  the response was marshalled and handed to the connection, or \<open>Refused\<close>, when
  marshalling failed and nothing was written; and the deferred \<^verbatim>\<open>conn.Close()\<close> once
  \<^verbatim>\<open>scanner.Scan()\<close> returns false, at the end of the input or at a line too long.  The
  code drops the result of \<^verbatim>\<open>Encode\<close>, so the loop goes on in the same way whether the
  response was written, refused, or lost by the network.
\<close>

datatype connEvent = Write Response | Refused Response | Close

definition encodeEvent :: "Response \<Rightarrow> connEvent" where
  "encodeEvent r = (if encodes r then Write r else Refused r)"

fun handleConnection ::
  "decoder \<Rightarrow> 'p PluginAPI \<Rightarrow> string list \<Rightarrow> 'p PluginServer \<Rightarrow> connEvent list \<times> 'p PluginServer"
  where
  "handleConnection D P [] s = ([Close], s)"
| "handleConnection D P (raw # rest) s =
     (if maxScanTokenSize \<le> length raw then ([Close], s)
      else
        let line = dropCR raw
        in if line = [] then handleConnection D P rest s
           else case unmarshalRequest D line of
                  Inl err \<Rightarrow>
                    (let response = \<lparr>Success = False, Result = [],
                                     Error = ''invalid request format: '' @ err\<rparr>;
                         (evs, s') = handleConnection D P rest s
                     in (encodeEvent response # evs, s'))
                | Inr req \<Rightarrow>
                    (let (response, s1) = handleRequest D P req s;
                         (evs, s2) = handleConnection D P rest s1
                     in (encodeEvent response # evs, s2)))"

text \<open>
  The responses written on a connection, the responses passed to the encoder (written or
  refused), both in order, and the bytes written.
\<close>

fun responses :: "connEvent list \<Rightarrow> Response list" where
  "responses [] = []"
| "responses (Write r # evs) = r # responses evs"
| "responses (Refused r # evs) = responses evs"
| "responses (Close # evs) = responses evs"

fun encoded :: "connEvent list \<Rightarrow> Response list" where
  "encoded [] = []"
| "encoded (Write r # evs) = r # encoded evs"
| "encoded (Refused r # evs) = r # encoded evs"
| "encoded (Close # evs) = encoded evs"

definition wireOutput :: "connEvent list \<Rightarrow> string" where
  "wireOutput evs = concat (map Encode (responses evs))"

text \<open>
  A plugin implementation whose replies are fixed by its state, for running the server on
  concrete inputs: every method answers with the reply stored for it and leaves the state
  as it is (\<^verbatim>\<open>HandleRequest\<close> may also echo its body).  With \<open>startReply = None\<close> and
  \<open>stopReply = None\<close> it behaves as \<^verbatim>\<open>Start\<close> and \<^verbatim>\<open>Stop\<close> of
  \<^verbatim>\<open>github-dashboard/main.go\<close> do, which return nil whatever happened before.
\<close>

record replies =
  initializeReply :: "string option"
  startReply :: "string option"
  stopReply :: "string option"
  infoReply :: jobject
  requestReply :: "(string + string) option"
  healthReply :: "string option"

definition cannedPlugin :: "replies PluginAPI" where
  "cannedPlugin =
     \<lparr>Initialize = (\<lambda>config p. (initializeReply p, p)),
      Start = (\<lambda>p. (startReply p, p)),
      Stop = (\<lambda>p. (stopReply p, p)),
      GetInfo = (\<lambda>p. (infoReply p, p)),
      HandleRequest = (\<lambda>m path body p.
         (case requestReply p of Some r \<Rightarrow> r | None \<Rightarrow> Inr body, p)),
      HealthCheck = (\<lambda>name p. (healthReply p, p))\<rparr>"

definition allOk :: replies where
  "allOk = \<lparr>initializeReply = None, startReply = None, stopReply = None,
            infoReply = [(''name'', JStr ''GitHub Dashboard'')],
            requestReply = None, healthReply = None\<rparr>"

definition freshServer :: "'p \<Rightarrow> 'p PluginServer" where
  "freshServer p = \<lparr>plugin = p, invoked = []\<rparr>"

text \<open>
  A decoder given by a table, for the same purpose: the lines listed decode as the table
  says, and every other line is rejected with the text \<^verbatim>\<open>encoding/json\<close> gives for
  truncated input.
\<close>

definition tableDecoder :: "(string \<times> (string + Request)) list \<Rightarrow> (string \<times> jvalue) list \<Rightarrow> decoder"
  where
  "tableDecoder reqs vals =
     \<lparr>unmarshalRequest = (\<lambda>l. case map_of reqs l of Some r \<Rightarrow> r
                                 | None \<Rightarrow> Inl ''unexpected end of JSON input''),
      unmarshalValue = map_of vals\<rparr>"

text \<open>Requests and lines used below when the server is run on concrete input.\<close>

definition healthCheckRequest :: Request where
  "healthCheckRequest =
     \<lparr>Method = ''health_check'', Action = '''', Data = [(''check_name'', JStr ''x'')]\<rparr>"

definition healthCheckLine :: string where
  \<open>healthCheckLine = ''{"method":"health_check","action":"","data":{"check_name":"x"}}''\<close>

definition startRequest :: Request where
  "startRequest = \<lparr>Method = ''start'', Action = '''', Data = []\<rparr>"

definition startLine :: string where
  \<open>startLine = ''{"method":"start","action":"","data":{}}''\<close>

definition initializeNoConfig :: Request where
  "initializeNoConfig =
     \<lparr>Method = ''initialize'', Action = '''', Data = [(''settings'', JObj [])]\<rparr>"

definition executeRequest :: Request where
  "executeRequest =
     \<lparr>Method = ''execute_action'', Action = ''refresh'',
      Data = [(''data'', JObj [(''n'', JNum ''1'')]), (''extra'', JBool True)]\<rparr>"

definition getInfoRequest :: Request where
  "getInfoRequest = \<lparr>Method = ''get_info'', Action = '''', Data = []\<rparr>"

definition getInfoLine :: string where
  \<open>getInfoLine = ''{"method":"get_info"}''\<close>


definition sampleDecoder :: decoder where
  \<open>sampleDecoder =
     tableDecoder
       [('''', Inl ''unexpected end of JSON input''),
        (''{"method":'', Inl ''unexpected end of JSON input''),
        (healthCheckLine, Inr healthCheckRequest),
        (startLine, Inr startRequest),
        (getInfoLine, Inr getInfoRequest)]
       [(''null'', JNull),
        (''{"n":1}'', JObj [(''n'', JNum ''1'')])]\<close>

section \<open>Serve and Shutdown\<close>

text \<open>
  \<^verbatim>\<open>Serve\<close> runs in one goroutine and \<^verbatim>\<open>Shutdown\<close> is called from another, so the accept
  loop is modelled step by step.  The state holds what the two share (whether \<^verbatim>\<open>s.ctx\<close> is
  cancelled, and \<^verbatim>\<open>s.listener\<close>: nil, listening or closed), where \<^verbatim>\<open>Serve\<close> stands, and what
  the network has ready for \<^verbatim>\<open>Accept\<close>: connections, or transient accept failures.
  \<^verbatim>\<open>Accept\<close> follows the contract of \<^verbatim>\<open>net.Listener\<close>: on a closed listener it returns an
  error at once, on an open one it returns what is ready and otherwise blocks.  A blocked
  goroutine has no step.
\<close>

datatype listenerState = NoListener | Listening | ListenerClosed

datatype acceptReady = Connection | AcceptFailure

datatype serveResult = ReturnedNil | ReturnedListenError

datatype servePoint = BeforeListen | AtSelect | InAccept | Returned serveResult

record serveState =
  ctxDone :: bool
  listener :: listenerState
  portFree :: bool
  ready :: "acceptReady list"
  spawned :: nat
  acceptErrorsPrinted :: nat
  at :: servePoint

definition serveStep :: "serveState \<Rightarrow> serveState option" where
  "serveStep st =
     (case at st of
        BeforeListen \<Rightarrow>
          (if portFree st then Some (st\<lparr>listener := Listening, at := AtSelect\<rparr>)
           else Some (st\<lparr>at := Returned ReturnedListenError\<rparr>))
      | AtSelect \<Rightarrow>
          (if ctxDone st then Some (st\<lparr>at := Returned ReturnedNil\<rparr>)
           else Some (st\<lparr>at := InAccept\<rparr>))
      | InAccept \<Rightarrow>
          (if listener st = ListenerClosed then
             (if ctxDone st then Some (st\<lparr>at := Returned ReturnedNil\<rparr>)
              else Some (st\<lparr>acceptErrorsPrinted := Suc (acceptErrorsPrinted st), at := AtSelect\<rparr>))
           else
             (case ready st of
                [] \<Rightarrow> None
              | Connection # rest \<Rightarrow>
                  Some (st\<lparr>ready := rest, spawned := Suc (spawned st), at := AtSelect\<rparr>)
              | AcceptFailure # rest \<Rightarrow>
                  (if ctxDone st then Some (st\<lparr>ready := rest, at := Returned ReturnedNil\<rparr>)
                   else Some (st\<lparr>ready := rest,
                                 acceptErrorsPrinted := Suc (acceptErrorsPrinted st),
                                 at := AtSelect\<rparr>))))
      | Returned r \<Rightarrow> None)"

text \<open>Up to \<open>n\<close> steps of \<^verbatim>\<open>Serve\<close>, stopping where it blocks or has returned.\<close>

fun serveRun :: "nat \<Rightarrow> serveState \<Rightarrow> serveState" where
  "serveRun 0 st = st"
| "serveRun (Suc n) st = (case serveStep st of None \<Rightarrow> st | Some st' \<Rightarrow> serveRun n st')"

text \<open>
  The two statements of \<^verbatim>\<open>Shutdown\<close>, in their order.  \<^verbatim>\<open>s.cancel\<close> is set by
  \<^verbatim>\<open>NewPluginServer\<close> and never nil; \<^verbatim>\<open>s.listener\<close> is nil until \<^verbatim>\<open>Serve\<close> has listened.
\<close>

definition cancel :: "serveState \<Rightarrow> serveState" where
  "cancel st = st\<lparr>ctxDone := True\<rparr>"

definition closeListener :: "serveState \<Rightarrow> serveState" where
  "closeListener st = (if listener st = NoListener then st else st\<lparr>listener := ListenerClosed\<rparr>)"

definition Shutdown :: "serveState \<Rightarrow> serveState" where
  "Shutdown st = closeListener (cancel st)"

definition blockedInAccept :: serveState where
  "blockedInAccept =
     \<lparr>ctxDone = False, listener = Listening, portFree = True, ready = [], spawned = 2,
      acceptErrorsPrinted = 0, at = InAccept\<rparr>"

section \<open>The resource manager of the plugin frontends\<close>

text \<open>
  \<^verbatim>\<open>DelvePluginSDK\<close> (\<^verbatim>\<open>src/unnamed/part_001\<close>) and its copy \<^verbatim>\<open>ResourceManager\<close> in
  \<^verbatim>\<open>component.js\<close> keep registries of timers, event listeners, sockets or abort controllers,
  and cleanup handlers.  JavaScript objects are identified by a number: a function, an event
  target, a socket, an options object and an abort controller are equal when they are the
  same object.  A \<^verbatim>\<open>Set\<close> is a list without duplicates in insertion order, which is the
  order \<^verbatim>\<open>forEach\<close> visits; a \<^verbatim>\<open>Map\<close> is an association list in insertion order.
\<close>

definition setAdd :: "'a \<Rightarrow> 'a list \<Rightarrow> 'a list" where
  "setAdd x xs = (if x \<in> set xs then xs else xs @ [x])"

definition setDelete :: "'a \<Rightarrow> 'a list \<Rightarrow> 'a list" where
  "setDelete x xs = removeAll x xs"

text \<open>
  A cleanup handler is a function the caller supplies, or the closure
  \<^verbatim>\<open>() => { controller.abort(); }\<close> that \<^verbatim>\<open>managedFetch\<close> of the SDK creates for its
  controller.  \<^verbatim>\<open>onCleanup\<close> may be handed a value that is no function.
\<close>

datatype callback = UserFn nat | AbortFn nat

datatype jsArg = Function callback | NotFunction

datatype readyState = CONNECTING | OPEN | CLOSING | CLOSED

text \<open>
  What the manager does to its surroundings is the sequence of calls it makes: on the
  timer functions, on event targets, on sockets, on abort controllers, on the handlers
  and on the console.  A supplied function is opaque: calling it is recorded, and it either
  returns or throws.
\<close>

datatype browserCall =
    SetInterval nat nat nat
  | SetTimeout nat nat nat
  | ClearInterval nat
  | ClearTimeout nat
  | AddEventListener nat string nat nat
  | RemoveEventListener nat string nat "nat option"
  | SocketOnClose nat
  | SocketClose nat nat string
  | NewAbortController nat
  | Fetch string nat
  | Abort nat
  | CallHandler callback
  | ConsoleWarn string callback
  | ConsoleLog string

record browser =
  calls :: "browserCall list"
  nextHandle :: nat
  nextController :: nat
  sockets :: "(nat \<times> readyState) list"
  aborted :: "nat list"
  throwers :: "nat list"

definition emit :: "browserCall \<Rightarrow> browser \<Rightarrow> browser" where
  "emit c b = b\<lparr>calls := calls b @ [c]\<rparr>"

definition stateOf :: "browser \<Rightarrow> nat \<Rightarrow> readyState" where
  "stateOf b ws = (case map_of (sockets b) ws of Some st \<Rightarrow> st | None \<Rightarrow> CLOSED)"

type_synonym binding = "string \<times> nat \<times> nat"

record sdk =
  cleanupHandlers :: "callback list"
  isShuttingDown :: bool
  intervals :: "nat list"
  timeouts :: "nat list"
  eventListeners :: "(nat \<times> binding list) list"
  websockets :: "nat list"

definition newSDK :: sdk where
  "newSDK = \<lparr>cleanupHandlers = [], isShuttingDown = False, intervals = [], timeouts = [],
             eventListeners = [], websockets = []\<rparr>"

definition onCleanup :: "jsArg \<Rightarrow> sdk \<times> browser \<Rightarrow> sdk \<times> browser" where
  "onCleanup handler = (\<lambda>(m, b).
     case handler of
       Function h \<Rightarrow> (m\<lparr>cleanupHandlers := setAdd h (cleanupHandlers m)\<rparr>, b)
     | NotFunction \<Rightarrow> (m, b))"

definition setManagedInterval :: "nat \<Rightarrow> nat \<Rightarrow> sdk \<times> browser \<Rightarrow> nat \<times> sdk \<times> browser" where
  "setManagedInterval callback delay = (\<lambda>(m, b).
     let intervalId = nextHandle b;
         b' = (emit (SetInterval callback delay intervalId) b)\<lparr>nextHandle := Suc intervalId\<rparr>
     in (intervalId, m\<lparr>intervals := setAdd intervalId (intervals m)\<rparr>, b'))"

definition setManagedTimeout :: "nat \<Rightarrow> nat \<Rightarrow> sdk \<times> browser \<Rightarrow> nat \<times> sdk \<times> browser" where
  "setManagedTimeout callback delay = (\<lambda>(m, b).
     let timeoutId = nextHandle b;
         b' = (emit (SetTimeout callback delay timeoutId) b)\<lparr>nextHandle := Suc timeoutId\<rparr>
     in (timeoutId, m\<lparr>timeouts := setAdd timeoutId (timeouts m)\<rparr>, b'))"

definition pushBinding :: "nat \<Rightarrow> binding \<Rightarrow> (nat \<times> binding list) list \<Rightarrow> (nat \<times> binding list) list"
  where
  "pushBinding target e m =
     (let m' = (if target \<in> set (map fst m) then m else m @ [(target, [])])
      in map (\<lambda>(k, ls). if k = target then (k, ls @ [e]) else (k, ls)) m')"

definition addManagedEventListener ::
  "nat \<Rightarrow> string \<Rightarrow> nat \<Rightarrow> nat \<Rightarrow> sdk \<times> browser \<Rightarrow> sdk \<times> browser" where
  "addManagedEventListener target event handler options = (\<lambda>(m, b).
     (m\<lparr>eventListeners := pushBinding target (event, handler, options) (eventListeners m)\<rparr>,
      emit (AddEventListener target event handler options) b))"

definition addManagedWebSocket :: "nat \<Rightarrow> sdk \<times> browser \<Rightarrow> sdk \<times> browser" where
  "addManagedWebSocket websocket = (\<lambda>(m, b).
     (m\<lparr>websockets := setAdd websocket (websockets m)\<rparr>, emit (SocketOnClose websocket) b))"

definition clearManagedInterval :: "nat \<Rightarrow> sdk \<times> browser \<Rightarrow> sdk \<times> browser" where
  "clearManagedInterval intervalId = (\<lambda>(m, b).
     (m\<lparr>intervals := setDelete intervalId (intervals m)\<rparr>, emit (ClearInterval intervalId) b))"

definition clearManagedTimeout :: "nat \<Rightarrow> sdk \<times> browser \<Rightarrow> sdk \<times> browser" where
  "clearManagedTimeout timeoutId = (\<lambda>(m, b).
     (m\<lparr>timeouts := setDelete timeoutId (timeouts m)\<rparr>, emit (ClearTimeout timeoutId) b))"

text \<open>\<^verbatim>\<open>findIndex\<close> and \<^verbatim>\<open>splice(index, 1)\<close>: the first binding of the event and handler goes.\<close>

fun spliceFirst :: "string \<Rightarrow> nat \<Rightarrow> binding list \<Rightarrow> binding list" where
  "spliceFirst event handler [] = []"
| "spliceFirst event handler ((e, h, opts) # ls) =
     (if e = event \<and> h = handler then ls else (e, h, opts) # spliceFirst event handler ls)"

definition removeManagedEventListener ::
  "nat \<Rightarrow> string \<Rightarrow> nat \<Rightarrow> sdk \<times> browser \<Rightarrow> sdk \<times> browser" where
  "removeManagedEventListener target event handler = (\<lambda>(m, b).
     let b' = emit (RemoveEventListener target event handler None) b
     in case map_of (eventListeners m) target of
          None \<Rightarrow> (m, b')
        | Some listeners \<Rightarrow>
            (let listeners' = spliceFirst event handler listeners;
                 updated = map (\<lambda>(k, ls). if k = target then (k, listeners') else (k, ls))
                             (eventListeners m)
             in (m\<lparr>eventListeners :=
                      (if listeners' = [] then filter (\<lambda>(k, ls). k \<noteq> target) updated
                       else updated)\<rparr>, b')))"

text \<open>The loops of \<^verbatim>\<open>cleanup\<close>, one function for the body of each \<^verbatim>\<open>forEach\<close>.\<close>

definition removeBindings :: "browser \<Rightarrow> nat \<times> binding list \<Rightarrow> browser" where
  "removeBindings b entry =
     foldl (\<lambda>b' (event, handler, options).
              emit (RemoveEventListener (fst entry) event handler (Some options)) b')
       b (snd entry)"

definition closeSocket :: "browser \<Rightarrow> nat \<Rightarrow> browser" where
  "closeSocket b websocket =
     (if stateOf b websocket = OPEN \<or> stateOf b websocket = CONNECTING
      then (emit (SocketClose websocket 1000 ''Plugin shutting down'') b)
             \<lparr>sockets := (websocket, CLOSING) # sockets b\<rparr>
      else b)"

definition abortController :: "nat \<Rightarrow> browser \<Rightarrow> browser" where
  "abortController c b = (emit (Abort c) b)\<lparr>aborted := setAdd c (aborted b)\<rparr>"

definition callHandler :: "string \<Rightarrow> browser \<Rightarrow> callback \<Rightarrow> browser" where
  "callHandler warning b handler =
     (case handler of
        UserFn f \<Rightarrow>
          (if f \<in> set (throwers b)
           then emit (ConsoleWarn warning handler) (emit (CallHandler handler) b)
           else emit (CallHandler handler) b)
      | AbortFn c \<Rightarrow> abortController c (emit (CallHandler handler) b))"

definition cleanup :: "sdk \<times> browser \<Rightarrow> sdk \<times> browser" where
  "cleanup = (\<lambda>(m, b).
     if isShuttingDown m then (m, b)
     else
       let b1 = emit (ConsoleLog ''[Delve SDK] Starting plugin cleanup'') b;
           b2 = foldl (\<lambda>b' intervalId. emit (ClearInterval intervalId) b') b1 (intervals m);
           b3 = foldl (\<lambda>b' timeoutId. emit (ClearTimeout timeoutId) b') b2 (timeouts m);
           b4 = foldl removeBindings b3 (eventListeners m);
           b5 = foldl closeSocket b4 (websockets m);
           b6 = foldl (callHandler ''[Delve SDK] Error in cleanup handler:'') b5 (cleanupHandlers m)
       in (m\<lparr>isShuttingDown := True, intervals := [], timeouts := [], eventListeners := [],
              websockets := [], cleanupHandlers := []\<rparr>,
           emit (ConsoleLog ''[Delve SDK] Plugin cleanup completed'') b6))"

definition managedFetch :: "string \<Rightarrow> sdk \<times> browser \<Rightarrow> sdk \<times> browser" where
  "managedFetch url = (\<lambda>(m, b).
     let controller = nextController b;
         b1 = (emit (NewAbortController controller) b)\<lparr>nextController := Suc controller\<rparr>;
         (m', b2) = onCleanup (Function (AbortFn controller)) (m, b1)
     in (m', emit (Fetch url controller) b2))"

text \<open>
  The \<^verbatim>\<open>close\<close> listener that \<^verbatim>\<open>addManagedWebSocket\<close> attaches runs when the socket has
  closed: it deletes the socket from the registry.
\<close>

definition socketClosed :: "nat \<Rightarrow> sdk \<times> browser \<Rightarrow> sdk \<times> browser" where
  "socketClosed websocket = (\<lambda>(m, b).
     let b' = b\<lparr>sockets := (websocket, CLOSED) # sockets b\<rparr>
     in if SocketOnClose websocket \<in> set (calls b)
        then (m\<lparr>websockets := setDelete websocket (websockets m)\<rparr>, b')
        else (m, b'))"

text \<open>The life of one manager: any sequence of calls on it and of sockets closing.\<close>

datatype sdkOp =
    OnCleanup jsArg
  | SetManagedInterval nat nat
  | SetManagedTimeout nat nat
  | AddManagedEventListener nat string nat nat
  | AddManagedWebSocket nat
  | ClearManagedInterval nat
  | ClearManagedTimeout nat
  | RemoveManagedEventListener nat string nat
  | ManagedFetch string
  | Cleanup
  | SocketClosed nat

fun exec :: "sdk \<times> browser \<Rightarrow> sdkOp \<Rightarrow> sdk \<times> browser" where
  "exec st (OnCleanup handler) = onCleanup handler st"
| "exec st (SetManagedInterval callback delay) = snd (setManagedInterval callback delay st)"
| "exec st (SetManagedTimeout callback delay) = snd (setManagedTimeout callback delay st)"
| "exec st (AddManagedEventListener target event handler options) =
     addManagedEventListener target event handler options st"
| "exec st (AddManagedWebSocket websocket) = addManagedWebSocket websocket st"
| "exec st (ClearManagedInterval intervalId) = clearManagedInterval intervalId st"
| "exec st (ClearManagedTimeout timeoutId) = clearManagedTimeout timeoutId st"
| "exec st (RemoveManagedEventListener target event handler) =
     removeManagedEventListener target event handler st"
| "exec st (ManagedFetch url) = managedFetch url st"
| "exec st Cleanup = cleanup st"
| "exec st (SocketClosed websocket) = socketClosed websocket st"

definition run :: "sdkOp list \<Rightarrow> sdk \<times> browser \<Rightarrow> sdk \<times> browser" where
  "run ops st = foldl exec st ops"

text \<open>
  The calls that release something: a timer cleared, a listener removed, a socket closed, a
  request aborted, a cleanup handler run.  \<open>explicitRelease\<close> are the operations by which
  the caller releases one resource by its handle, and the closing of a socket by its peer.
\<close>

fun isRelease :: "browserCall \<Rightarrow> bool" where
  "isRelease (ClearInterval i) = True"
| "isRelease (ClearTimeout i) = True"
| "isRelease (RemoveEventListener t e h opts) = True"
| "isRelease (SocketClose ws code reason) = True"
| "isRelease (Abort c) = True"
| "isRelease (CallHandler h) = True"
| "isRelease c = False"

fun explicitRelease :: "sdkOp \<Rightarrow> bool" where
  "explicitRelease (ClearManagedInterval i) = True"
| "explicitRelease (ClearManagedTimeout i) = True"
| "explicitRelease (RemoveManagedEventListener t e h) = True"
| "explicitRelease (SocketClosed ws) = True"
| "explicitRelease op = False"

fun isRegistration :: "sdkOp \<Rightarrow> bool" where
  "isRegistration (OnCleanup h) = True"
| "isRegistration (SetManagedInterval c d) = True"
| "isRegistration (SetManagedTimeout c d) = True"
| "isRegistration (AddManagedEventListener t e h opts) = True"
| "isRegistration (AddManagedWebSocket ws) = True"
| "isRegistration (ManagedFetch url) = True"
| "isRegistration op = False"

definition newBrowser :: browser where
  "newBrowser = \<lparr>calls = [], nextHandle = 1, nextController = 0,
                 sockets = [(7, OPEN), (8, CLOSED)], aborted = [], throwers = [3]\<rparr>"

subsection \<open>The copy in the dashboard component\<close>

text \<open>
  \<^verbatim>\<open>ResourceManager\<close> of \<^verbatim>\<open>component.js\<close> has the same registries with abort controllers
  in the place of sockets: \<^verbatim>\<open>managedFetch\<close> adds its controller to a set, deletes it when
  the request settles, and \<^verbatim>\<open>cleanup\<close> aborts the controllers not yet aborted.  It has no
  operation that releases a single timer or listener.
\<close>

record resourceManager =
  rmCleanupHandlers :: "callback list"
  rmIsShuttingDown :: bool
  rmIntervals :: "nat list"
  rmTimeouts :: "nat list"
  rmEventListeners :: "(nat \<times> binding list) list"
  abortControllers :: "nat list"

definition newResourceManager :: resourceManager where
  "newResourceManager =
     \<lparr>rmCleanupHandlers = [], rmIsShuttingDown = False, rmIntervals = [], rmTimeouts = [],
      rmEventListeners = [], abortControllers = []\<rparr>"

definition rmOnCleanup :: "jsArg \<Rightarrow> resourceManager \<times> browser \<Rightarrow> resourceManager \<times> browser"
  where
  "rmOnCleanup handler = (\<lambda>(m, b).
     case handler of
       Function h \<Rightarrow> (m\<lparr>rmCleanupHandlers := setAdd h (rmCleanupHandlers m)\<rparr>, b)
     | NotFunction \<Rightarrow> (m, b))"

definition rmSetManagedInterval ::
  "nat \<Rightarrow> nat \<Rightarrow> resourceManager \<times> browser \<Rightarrow> nat \<times> resourceManager \<times> browser" where
  "rmSetManagedInterval handler delay = (\<lambda>(m, b).
     let id = nextHandle b;
         b' = (emit (SetInterval handler delay id) b)\<lparr>nextHandle := Suc id\<rparr>
     in (id, m\<lparr>rmIntervals := setAdd id (rmIntervals m)\<rparr>, b'))"

definition rmSetManagedTimeout ::
  "nat \<Rightarrow> nat \<Rightarrow> resourceManager \<times> browser \<Rightarrow> nat \<times> resourceManager \<times> browser" where
  "rmSetManagedTimeout handler delay = (\<lambda>(m, b).
     let id = nextHandle b;
         b' = (emit (SetTimeout handler delay id) b)\<lparr>nextHandle := Suc id\<rparr>
     in (id, m\<lparr>rmTimeouts := setAdd id (rmTimeouts m)\<rparr>, b'))"

definition rmAddManagedEventListener ::
  "nat \<Rightarrow> string \<Rightarrow> nat \<Rightarrow> nat \<Rightarrow> resourceManager \<times> browser \<Rightarrow> resourceManager \<times> browser"
  where
  "rmAddManagedEventListener target event handler options = (\<lambda>(m, b).
     (m\<lparr>rmEventListeners := pushBinding target (event, handler, options) (rmEventListeners m)\<rparr>,
      emit (AddEventListener target event handler options) b))"

definition rmManagedFetch :: "string \<Rightarrow> resourceManager \<times> browser \<Rightarrow> resourceManager \<times> browser"
  where
  "rmManagedFetch url = (\<lambda>(m, b).
     let controller = nextController b;
         b1 = (emit (NewAbortController controller) b)\<lparr>nextController := Suc controller\<rparr>
     in (m\<lparr>abortControllers := setAdd controller (abortControllers m)\<rparr>,
         emit (Fetch url controller) b1))"

definition rmFetchSettled :: "nat \<Rightarrow> resourceManager \<times> browser \<Rightarrow> resourceManager \<times> browser"
  where
  "rmFetchSettled controller = (\<lambda>(m, b).
     (m\<lparr>abortControllers := setDelete controller (abortControllers m)\<rparr>, b))"

definition abortPending :: "browser \<Rightarrow> nat \<Rightarrow> browser" where
  "abortPending b controller =
     (if controller \<in> set (aborted b) then b else abortController controller b)"

definition rmCleanup :: "resourceManager \<times> browser \<Rightarrow> resourceManager \<times> browser" where
  "rmCleanup = (\<lambda>(m, b).
     if rmIsShuttingDown m then (m, b)
     else
       let b1 = emit (ConsoleLog ''[GitHub Dashboard] Starting cleanup'') b;
           b2 = foldl (\<lambda>b' id. emit (ClearInterval id) b') b1 (rmIntervals m);
           b3 = foldl (\<lambda>b' id. emit (ClearTimeout id) b') b2 (rmTimeouts m);
           b4 = foldl removeBindings b3 (rmEventListeners m);
           b5 = foldl abortPending b4 (abortControllers m);
           b6 = foldl (callHandler ''[GitHub Dashboard] Error in cleanup handler:'') b5
                  (rmCleanupHandlers m)
       in (m\<lparr>rmIsShuttingDown := True, rmIntervals := [], rmTimeouts := [],
              rmEventListeners := [], abortControllers := [], rmCleanupHandlers := []\<rparr>,
           emit (ConsoleLog ''[GitHub Dashboard] Cleanup completed'') b6))"

datatype rmOp =
    RmOnCleanup jsArg
  | RmSetManagedInterval nat nat
  | RmSetManagedTimeout nat nat
  | RmAddManagedEventListener nat string nat nat
  | RmManagedFetch string
  | RmCleanup
  | RmFetchSettled nat

fun rmExec :: "resourceManager \<times> browser \<Rightarrow> rmOp \<Rightarrow> resourceManager \<times> browser" where
  "rmExec st (RmOnCleanup handler) = rmOnCleanup handler st"
| "rmExec st (RmSetManagedInterval handler delay) = snd (rmSetManagedInterval handler delay st)"
| "rmExec st (RmSetManagedTimeout handler delay) = snd (rmSetManagedTimeout handler delay st)"
| "rmExec st (RmAddManagedEventListener target event handler options) =
     rmAddManagedEventListener target event handler options st"
| "rmExec st (RmManagedFetch url) = rmManagedFetch url st"
| "rmExec st RmCleanup = rmCleanup st"
| "rmExec st (RmFetchSettled controller) = rmFetchSettled controller st"

definition rmRun :: "rmOp list \<Rightarrow> resourceManager \<times> browser \<Rightarrow> resourceManager \<times> browser" where
  "rmRun ops st = foldl rmExec st ops"

text \<open>
  The calls made between two states of the surroundings, and the surroundings after the
  loops of each \<^verbatim>\<open>cleanup\<close> that come before the cleanup handlers.
\<close>

definition callsDuring :: "'m \<times> browser \<Rightarrow> 'm \<times> browser \<Rightarrow> browserCall list" where
  "callsDuring st st' = drop (length (calls (snd st))) (calls (snd st'))"

definition beforeHandlers :: "sdk \<Rightarrow> browser \<Rightarrow> browser" where
  "beforeHandlers m b =
     foldl closeSocket
       (foldl removeBindings
          (foldl (\<lambda>b' timeoutId. emit (ClearTimeout timeoutId) b')
             (foldl (\<lambda>b' intervalId. emit (ClearInterval intervalId) b')
                (emit (ConsoleLog ''[Delve SDK] Starting plugin cleanup'') b) (intervals m))
             (timeouts m))
          (eventListeners m))
       (websockets m)"

definition rmBeforeHandlers :: "resourceManager \<Rightarrow> browser \<Rightarrow> browser" where
  "rmBeforeHandlers m b =
     foldl abortPending
       (foldl removeBindings
          (foldl (\<lambda>b' id. emit (ClearTimeout id) b')
             (foldl (\<lambda>b' id. emit (ClearInterval id) b')
                (emit (ConsoleLog ''[GitHub Dashboard] Starting cleanup'') b) (rmIntervals m))
             (rmTimeouts m))
          (rmEventListeners m))
       (abortControllers m)"

text \<open>Sequences of operations on which the managers are run below.\<close>

definition sampleOps :: "sdkOp list" where
  "sampleOps =
     [OnCleanup (Function (UserFn 3)), OnCleanup (Function (UserFn 4)),
      OnCleanup (Function (UserFn 3)), OnCleanup NotFunction,
      SetManagedInterval 10 1000, AddManagedWebSocket 7, AddManagedWebSocket 8,
      AddManagedEventListener 20 ''resize'' 21 22, ManagedFetch ''/api/status'']"

definition lateOps :: "sdkOp list" where
  "lateOps =
     [SetManagedInterval 11 500, OnCleanup (Function (UserFn 5)), Cleanup,
      AddManagedWebSocket 7, Cleanup]"

definition rmSampleOps :: "rmOp list" where
  "rmSampleOps =
     [RmOnCleanup (Function (UserFn 3)), RmOnCleanup (Function (UserFn 4)),
      RmSetManagedTimeout 10 250, RmManagedFetch ''/user/repos'', RmManagedFetch ''/rate_limit'',
      RmFetchSettled 0]"

section \<open>Properties of the request handlers\<close>

lemma quote_plain: \<open>quote ''success'' = ''"success"''\<close> \<open>quote ''result'' = ''"result"''\<close>
  \<open>quote ''healthy'' = ''"healthy"''\<close> \<open>quote ''message'' = ''"message"''\<close>
  by (simp_all add: quote_def escapeByte_def)

lemma encodes_empty [simp]: "encodes \<lparr>Success = b, Result = [], Error = e\<rparr>"
  by (simp add: encodes_def)

text \<open>
  C3.  A \<^verbatim>\<open>health_check\<close> request whose check fails in the implementation is answered
  with \<^verbatim>\<open>success:true\<close> and a result holding \<^verbatim>\<open>healthy:false\<close> and the error's text as
  \<^verbatim>\<open>message\<close>; the JSON written for it is
  \<^verbatim>\<open>{"success":true,"result":{"healthy":false,"message":<the text, quoted>}}\<close>, which for
  the error \<^verbatim>\<open>unreachable\<close> is exactly the text of the scenario.
\<close>

theorem health_check_failure_is_success_response:
  \<open>Method req = ''health_check'' \<Longrightarrow>
   fst (HealthCheck P (checkNameOf req) (plugin s)) = Some e \<Longrightarrow>
   fst (handleRequest D P req s) =
     \<lparr>Success = True, Result = [(''healthy'', JBool False), (''message'', JStr e)], Error = ''''\<rparr>
   \<and> marshalResponse (fst (handleRequest D P req s)) =
       ''{"success":true,"result":{"healthy":false,"message":'' @ quote e @ ''}}''
   \<and> (e = ''unreachable'' \<longrightarrow>
        marshalResponse (fst (handleRequest D P req s)) =
          ''{"success":true,"result":{"healthy":false,"message":"unreachable"}}'')\<close>
proof -
  assume m: "Method req = ''health_check''"
    and h: "fst (HealthCheck P (checkNameOf req) (plugin s)) = Some e"
  have r: "fst (handleRequest D P req s) =
     \<lparr>Success = True, Result = [(''healthy'', JBool False), (''message'', JStr e)], Error = ''''\<rparr>"
    using m h by (auto simp add: handleRequest_def handleHealthCheck_def Let_def split: prod.splits)
  have w: \<open>marshalResponse \<lparr>Success = True, Result = [(''healthy'', JBool False), (''message'', JStr e)], Error = ''''\<rparr> =
       ''{"success":true,"result":{"healthy":false,"message":'' @ quote e @ ''}}''\<close>
    by (simp add: marshalResponse_def encodes_def marshal_def marshalMembers_def sortKeys_def
        quote_plain)
  have u: \<open>quote ''unreachable'' = ''"unreachable"''\<close>
    by (simp add: quote_def escapeByte_def)
  show ?thesis
  proof (intro conjI impI)
    show "fst (handleRequest D P req s) =
      \<lparr>Success = True, Result = [(''healthy'', JBool False), (''message'', JStr e)], Error = ''''\<rparr>"
      by (rule r)
    show \<open>marshalResponse (fst (handleRequest D P req s)) =
       ''{"success":true,"result":{"healthy":false,"message":'' @ quote e @ ''}}''\<close>
      unfolding r by (rule w)
    assume "e = ''unreachable''"
    then show \<open>marshalResponse (fst (handleRequest D P req s)) =
          ''{"success":true,"result":{"healthy":false,"message":"unreachable"}}''\<close>
      unfolding r w by (simp add: u)
  qed
qed

theorem health_check_failure_is_success_response_witness:
  \<open>Method healthCheckRequest = ''health_check''
   \<and> fst (HealthCheck cannedPlugin (checkNameOf healthCheckRequest)
            (plugin (freshServer (allOk\<lparr>healthReply := Some ''unreachable''\<rparr>)))) = Some ''unreachable''
   \<and> marshalResponse (fst (handleRequest sampleDecoder cannedPlugin healthCheckRequest
          (freshServer (allOk\<lparr>healthReply := Some ''unreachable''\<rparr>)))) =
       ''{"success":true,"result":{"healthy":false,"message":"unreachable"}}''
   \<and> wireOutput (fst (handleConnection sampleDecoder cannedPlugin [healthCheckLine]
          (freshServer (allOk\<lparr>healthReply := Some ''unreachable''\<rparr>)))) =
       ''{"success":true,"result":{"healthy":false,"message":"unreachable"}}'' @ [CHR 0x0A]\<close>
proof -
  let ?s = "freshServer (allOk\<lparr>healthReply := Some ''unreachable''\<rparr>)"
  let ?r = "\<lparr>Success = True,
             Result = [(''healthy'', JBool False), (''message'', JStr ''unreachable'')],
             Error = ''''\<rparr>"
  have d: "unmarshalRequest sampleDecoder healthCheckLine = Inr healthCheckRequest"
    by (simp add: sampleDecoder_def tableDecoder_def healthCheckLine_def)
  have n: "dropCR healthCheckLine = healthCheckLine \<and> healthCheckLine \<noteq> []
           \<and> \<not> maxScanTokenSize \<le> length healthCheckLine"
    by (simp add: healthCheckLine_def dropCR_def maxScanTokenSize_def)
  have h1: "Method healthCheckRequest = ''health_check''"
    by (simp add: healthCheckRequest_def)
  have h2: "fst (HealthCheck cannedPlugin (checkNameOf healthCheckRequest) (plugin ?s))
             = Some ''unreachable''"
    by (simp add: cannedPlugin_def freshServer_def)
  from health_check_failure_is_success_response [OF h1 h2, of sampleDecoder]
  have r: "fst (handleRequest sampleDecoder cannedPlugin healthCheckRequest ?s) = ?r"
    and m: \<open>marshalResponse (fst (handleRequest sampleDecoder cannedPlugin healthCheckRequest ?s)) =
       ''{"success":true,"result":{"healthy":false,"message":"unreachable"}}''\<close>
    by blast+
  have e: "encodes ?r" by (simp add: encodes_def)
  have c: "responses (fst (handleConnection sampleDecoder cannedPlugin [healthCheckLine] ?s)) = [?r]"
    using d n r e by (simp add: split_beta encodeEvent_def)
  have w: \<open>wireOutput (fst (handleConnection sampleDecoder cannedPlugin [healthCheckLine] ?s)) =
       ''{"success":true,"result":{"healthy":false,"message":"unreachable"}}'' @ [CHR 0x0A]\<close>
    unfolding wireOutput_def c using m e unfolding r by (simp add: Encode_def)
  from h1 h2 m w show ?thesis by blast
qed

text \<open>
  C4.  An \<^verbatim>\<open>initialize\<close> request whose data has no mapping under \<^verbatim>\<open>config\<close> is answered
  with \<^verbatim>\<open>success:false\<close> and the error \<^verbatim>\<open>config is required\<close>, and the server is left
  exactly as it was: the implementation's state is untouched and no call on it is made, so
  \<^verbatim>\<open>Initialize\<close> is not invoked.
\<close>

theorem initialize_without_config_rejected:
  "Method req = ''initialize'' \<Longrightarrow>
   (\<forall>c. map_of (Data req) ''config'' \<noteq> Some (JObj c)) \<Longrightarrow>
   handleRequest D P req s =
     (\<lparr>Success = False, Result = [], Error = ''config is required''\<rparr>, s)"
  by (auto simp add: handleRequest_def handleInitialize_def configOf_def Let_def
      split: option.splits jvalue.splits)

theorem initialize_without_config_rejected_witness:
  "Method initializeNoConfig = ''initialize''
   \<and> (\<forall>c. map_of (Data initializeNoConfig) ''config'' \<noteq> Some (JObj c))
   \<and> handleRequest sampleDecoder cannedPlugin initializeNoConfig (freshServer allOk) =
     (\<lparr>Success = False, Result = [], Error = ''config is required''\<rparr>,
      \<lparr>plugin = allOk, invoked = []\<rparr>)"
  using initialize_without_config_rejected
    [where req = initializeNoConfig and D = sampleDecoder and P = cannedPlugin and s = "freshServer allOk"]
  by (simp add: initializeNoConfig_def freshServer_def)

subsection \<open>Start\<close>

lemma scans_startLine:
  "dropCR startLine = startLine \<and> startLine \<noteq> [] \<and> \<not> maxScanTokenSize \<le> length startLine"
  by (simp add: startLine_def dropCR_def maxScanTokenSize_def)

lemma decode_startLine: "unmarshalRequest sampleDecoder startLine = Inr startRequest"
  by (simp add: sampleDecoder_def tableDecoder_def startLine_def healthCheckLine_def)

lemma start_allOk:
  "handleRequest sampleDecoder cannedPlugin startRequest \<lparr>plugin = allOk, invoked = cs\<rparr> =
     (\<lparr>Success = True, Result = [], Error = ''''\<rparr>,
      \<lparr>plugin = allOk, invoked = cs @ [CallStart]\<rparr>)"
  by (simp add: startRequest_def handleRequest_def handleStart_def cannedPlugin_def allOk_def)

text \<open>
  C1, as stated, fails.  The server keeps no lifecycle state and \<open>handleStart\<close> checks
  nothing: on a fresh server, a connection whose first and only line is a \<^verbatim>\<open>start\<close>
  request is answered with \<^verbatim>\<open>success:true\<close>, and \<^verbatim>\<open>Start\<close> has been invoked, although
  no \<^verbatim>\<open>initialize\<close> came before.
\<close>

theorem start_before_initialize_accepted:
  "handleConnection sampleDecoder cannedPlugin [startLine] (freshServer allOk) =
     ([Write \<lparr>Success = True, Result = [], Error = ''''\<rparr>, Close],
      \<lparr>plugin = allOk, invoked = [CallStart]\<rparr>)"
  using scans_startLine
  by (simp add: decode_startLine freshServer_def start_allOk encodeEvent_def)

text \<open>
  C1, amended.  A \<^verbatim>\<open>start\<close> request is never rejected by the dispatcher itself: whatever
  was requested before, it invokes \<^verbatim>\<open>Start\<close> exactly once, and the response is
  \<^verbatim>\<open>success:true\<close> when \<^verbatim>\<open>Start\<close> returns nil and \<^verbatim>\<open>success:false\<close> with the error's
  text otherwise.
\<close>

theorem start_always_forwarded:
  "Method req = ''start'' \<Longrightarrow>
   invoked (snd (handleRequest D P req s)) = invoked s @ [CallStart]
   \<and> plugin (snd (handleRequest D P req s)) = snd (Start P (plugin s))
   \<and> fst (handleRequest D P req s) =
       (case fst (Start P (plugin s)) of
          None \<Rightarrow> \<lparr>Success = True, Result = [], Error = ''''\<rparr>
        | Some e \<Rightarrow> \<lparr>Success = False, Result = [], Error = e\<rparr>)"
  by (auto simp add: handleRequest_def handleStart_def Let_def split: prod.splits option.splits)

theorem start_always_forwarded_witness:
  "Method startRequest = ''start''
   \<and> invoked (snd (handleRequest sampleDecoder cannedPlugin startRequest
        (freshServer (allOk\<lparr>startReply := Some ''not initialized''\<rparr>)))) = [CallStart]
   \<and> fst (handleRequest sampleDecoder cannedPlugin startRequest
        (freshServer (allOk\<lparr>startReply := Some ''not initialized''\<rparr>))) =
       \<lparr>Success = False, Result = [], Error = ''not initialized''\<rparr>"
proof -
  have h: "Method startRequest = ''start''" by (simp add: startRequest_def)
  from start_always_forwarded [OF h, of sampleDecoder cannedPlugin
      "freshServer (allOk\<lparr>startReply := Some ''not initialized''\<rparr>)"] h
  show ?thesis by (simp add: cannedPlugin_def freshServer_def)
qed

subsection \<open>execute_action\<close>

text \<open>
  C6, as stated, fails.  For the request data \<^verbatim>\<open>{"data":{"n":1},"extra":true}\<close> the body
  handed to \<^verbatim>\<open>HandleRequest\<close> is \<^verbatim>\<open>{"n":1}\<close>, the encoding of the member \<^verbatim>\<open>data\<close> of the
  request's data and not of the request's data; and the decoded reply does not become the
  result field, it is stored in it under the key \<^verbatim>\<open>result\<close>.
\<close>

theorem execute_action_body_and_result_counterexample:
  \<open>marshal (JObj (Data executeRequest)) = ''{"data":{"n":1},"extra":true}''
   \<and> handleRequest sampleDecoder cannedPlugin executeRequest (freshServer allOk) =
     (\<lparr>Success = True, Result = [(''result'', JObj [(''n'', JNum ''1'')])], Error = ''''\<rparr>,
      \<lparr>plugin = allOk, invoked = [CallHandleRequest ''POST'' ''/execute'' ''{"n":1}'']\<rparr>)\<close>
  by (simp add: executeRequest_def handleRequest_def handleExecuteAction_def actionData_def
      cannedPlugin_def freshServer_def allOk_def sampleDecoder_def tableDecoder_def
      marshal_def marshalMembers_def sortKeys_def quote_def escapeByte_def)

text \<open>
  C6, amended.  For every \<^verbatim>\<open>execute_action\<close> request the dispatcher calls
  \<^verbatim>\<open>HandleRequest\<close> once with \<^verbatim>\<open>POST\<close>, \<^verbatim>\<open>/execute\<close> and the JSON encoding of the value
  under the key \<^verbatim>\<open>data\<close> of the request's data (\<^verbatim>\<open>null\<close> when the key is absent).  On
  success the returned bytes are decoded again (to null when they do not decode) and the
  value is put under the key \<^verbatim>\<open>result\<close> of the response's result mapping; on failure the
  error's text is the response's error, unchanged, with \<^verbatim>\<open>success:false\<close>.
\<close>

theorem execute_action_forwards_data_member:
  "Method req = ''execute_action'' \<Longrightarrow>
   invoked (snd (handleRequest D P req s)) =
     invoked s @ [CallHandleRequest ''POST'' ''/execute'' (marshal (actionData req))]
   \<and> fst (handleRequest D P req s) =
       (case fst (HandleRequest P ''POST'' ''/execute'' (marshal (actionData req)) (plugin s)) of
          Inl e \<Rightarrow> \<lparr>Success = False, Result = [], Error = e\<rparr>
        | Inr bytes \<Rightarrow>
            \<lparr>Success = True,
             Result = [(''result'', case unmarshalValue D bytes of Some v \<Rightarrow> v | None \<Rightarrow> JNull)],
             Error = ''''\<rparr>)"
  by (auto simp add: handleRequest_def handleExecuteAction_def Let_def
      split: prod.splits sum.splits)

theorem execute_action_forwards_data_member_witness:
  \<open>Method executeRequest = ''execute_action''
   \<and> invoked (snd (handleRequest sampleDecoder cannedPlugin executeRequest
        (freshServer (allOk\<lparr>requestReply := Some (Inl ''endpoint not found: POST /execute'')\<rparr>))))
      = [CallHandleRequest ''POST'' ''/execute'' ''{"n":1}'']
   \<and> fst (handleRequest sampleDecoder cannedPlugin executeRequest
        (freshServer (allOk\<lparr>requestReply := Some (Inl ''endpoint not found: POST /execute'')\<rparr>)))
      = \<lparr>Success = False, Result = [], Error = ''endpoint not found: POST /execute''\<rparr>\<close>
proof -
  have h: "Method executeRequest = ''execute_action''" by (simp add: executeRequest_def)
  have m: \<open>marshal (actionData executeRequest) = ''{"n":1}''\<close>
    by (simp add: executeRequest_def actionData_def marshal_def marshalMembers_def sortKeys_def
        quote_def escapeByte_def)
  from execute_action_forwards_data_member [OF h, of sampleDecoder cannedPlugin
      "freshServer (allOk\<lparr>requestReply := Some (Inl ''endpoint not found: POST /execute'')\<rparr>)"] h
  show ?thesis unfolding m by (simp add: cannedPlugin_def freshServer_def)
qed

subsection \<open>The connection loop\<close>

lemma encoded_encodeEvent [simp]: "encoded (encodeEvent r # evs) = r # encoded evs"
  by (simp add: encodeEvent_def)

lemma responses_encodeEvent [simp]:
  "responses (encodeEvent r # evs) = (if encodes r then r # responses evs else responses evs)"
  by (simp add: encodeEvent_def)

lemma dropCR_empty: "dropCR raw = [] \<Longrightarrow> length raw \<le> 1"
  by (cases raw rule: rev_cases) (auto simp add: dropCR_def split: if_splits)

lemma handleConnection_too_long:
  "maxScanTokenSize \<le> length raw \<Longrightarrow> handleConnection D P (raw # rest) s = ([Close], s)"
  by simp

lemma handleConnection_skip:
  "dropCR raw = [] \<Longrightarrow> handleConnection D P (raw # rest) s = handleConnection D P rest s"
  using dropCR_empty [of raw] by (simp add: maxScanTokenSize_def)



lemma handleConnection_bound:
  "length (responses (fst (handleConnection D P lines s))) \<le> length (filter (\<lambda>l. l \<noteq> []) lines)"
proof (induction lines arbitrary: s)
  case Nil
  show ?case by simp
next
  case (Cons raw rest)
  have e: "raw = [] \<Longrightarrow> dropCR raw = []" by (simp add: dropCR_def)
  show ?case
  proof (cases "maxScanTokenSize \<le> length raw")
    case True
    then show ?thesis by simp
  next
    case False
    show ?thesis
    proof (cases "dropCR raw = []")
      case True
      then show ?thesis using False Cons.IH [of s] by (simp add: le_SucI)
    next
      case nonempty: False
      then have "raw \<noteq> []" using e by blast
      then show ?thesis
        using False nonempty Cons.IH [of s]
          Cons.IH [of "snd (handleRequest D P (projr (unmarshalRequest D (dropCR raw))) s)"]
        by (cases "unmarshalRequest D (dropCR raw)") (simp_all add: split_beta le_SucI)
    qed
  qed
qed


lemma handleConnection_events:
  "fst (handleConnection D P lines s) =
     map encodeEvent (encoded (fst (handleConnection D P lines s))) @ [Close]"
proof (induction lines arbitrary: s)
  case Nil
  show ?case by simp
next
  case (Cons raw rest)
  show ?case
  proof (cases "maxScanTokenSize \<le> length raw")
    case True
    then show ?thesis by simp
  next
    case False
    show ?thesis
    proof (cases "unmarshalRequest D (dropCR raw)")
      case (Inl err)
      with False show ?thesis using Cons.IH [of s] by (simp add: split_beta Let_def)
    next
      case (Inr req)
      with False show ?thesis
        using Cons.IH [of s] Cons.IH [of "snd (handleRequest D P req s)"]
        by (simp add: split_beta Let_def)
    qed
  qed
qed


lemma scans_healthCheckLine:
  "dropCR healthCheckLine = healthCheckLine \<and> healthCheckLine \<noteq> []
   \<and> \<not> maxScanTokenSize \<le> length healthCheckLine"
  by (simp add: healthCheckLine_def dropCR_def maxScanTokenSize_def)

lemma decode_healthCheckLine:
  "unmarshalRequest sampleDecoder healthCheckLine = Inr healthCheckRequest"
  by (simp add: sampleDecoder_def tableDecoder_def healthCheckLine_def)

lemma health_allOk:
  "handleRequest sampleDecoder cannedPlugin healthCheckRequest \<lparr>plugin = allOk, invoked = cs\<rparr> =
     (\<lparr>Success = True, Result = [(''healthy'', JBool True), (''message'', JStr ''OK'')],
       Error = ''''\<rparr>,
      \<lparr>plugin = allOk, invoked = cs @ [CallHealthCheck ''x'']\<rparr>)"
  by (simp add: healthCheckRequest_def handleRequest_def handleHealthCheck_def checkNameOf_def
      cannedPlugin_def allOk_def)

lemma encodes_health:
  "encodes \<lparr>Success = True, Result = [(''healthy'', JBool True), (''message'', JStr ''OK'')],
            Error = ''''\<rparr>"
  by (simp add: encodes_def)

lemma scans_empty: "dropCR [] = [] \<and> \<not> maxScanTokenSize \<le> length ([] :: string)"
  by (simp add: dropCR_def maxScanTokenSize_def)








text \<open>
  C5, as stated, fails.  The empty line is not well-formed JSON (the decoder rejects it), yet
  it produces no response at all.
\<close>

theorem empty_line_is_malformed_but_unanswered:
  "unmarshalRequest sampleDecoder '''' = Inl ''unexpected end of JSON input''
   \<and> handleConnection sampleDecoder cannedPlugin [''''] (freshServer allOk) =
       ([Close], freshServer allOk)"
  using scans_empty by (simp add: sampleDecoder_def tableDecoder_def)

text \<open>
  C5, amended.  A non-empty line of fewer than 65536 bytes that the decoder rejects is
  answered with \<^verbatim>\<open>success:false\<close> and the error \<^verbatim>\<open>invalid request format:\<close> followed by the
  decoder's message, and that response is written.  The server's state is untouched, the
  connection is not closed, and the lines after it are handled exactly as they would have
  been without it: a well-formed request of fewer than 65536 bytes that follows is
  dispatched in the unchanged state and its response passed to the encoder, and the
  connection is closed only after all that the remaining lines bring has happened.  An
  empty line, with or without a carriage return, produces no response.  A line of 65536
  bytes or more is not read: it gets no response and the connection is closed.
\<close>

theorem malformed_line_answered_and_connection_continues:
  "length raw < maxScanTokenSize \<Longrightarrow> dropCR raw \<noteq> [] \<Longrightarrow>
   unmarshalRequest D (dropCR raw) = Inl err \<Longrightarrow>
   handleConnection D P (raw # rest) s =
     (Write \<lparr>Success = False, Result = [], Error = ''invalid request format: '' @ err\<rparr>
        # fst (handleConnection D P rest s),
      snd (handleConnection D P rest s))
   \<and> (length next < maxScanTokenSize \<and> dropCR next \<noteq> []
        \<and> unmarshalRequest D (dropCR next) = Inr req \<longrightarrow>
        handleConnection D P (raw # next # later) s =
          (Write \<lparr>Success = False, Result = [], Error = ''invalid request format: '' @ err\<rparr>
             # encodeEvent (fst (handleRequest D P req s))
             # fst (handleConnection D P later (snd (handleRequest D P req s))),
           snd (handleConnection D P later (snd (handleRequest D P req s)))))
   \<and> fst (handleConnection D P (raw # rest) s) =
       Write \<lparr>Success = False, Result = [], Error = ''invalid request format: '' @ err\<rparr>
         # map encodeEvent (encoded (fst (handleConnection D P rest s))) @ [Close]
   \<and> (dropCR blank = [] \<longrightarrow>
        handleConnection D P (blank # rest) s = handleConnection D P rest s)
   \<and> (maxScanTokenSize \<le> length long \<longrightarrow>
        handleConnection D P (long # rest) s = ([Close], s))"
proof -
  assume fits: "length raw < maxScanTokenSize" and ne: "dropCR raw \<noteq> []"
    and bad: "unmarshalRequest D (dropCR raw) = Inl err"
  let ?e = "\<lparr>Success = False, Result = [], Error = ''invalid request format: '' @ err\<rparr>"
  have head: "handleConnection D P (raw # tail) s =
      (Write ?e # fst (handleConnection D P tail s), snd (handleConnection D P tail s))" for tail
    using fits ne bad by (simp add: split_beta encodeEvent_def)
  have nxt: "handleConnection D P (next # later) s =
      (encodeEvent (fst (handleRequest D P req s))
         # fst (handleConnection D P later (snd (handleRequest D P req s))),
       snd (handleConnection D P later (snd (handleRequest D P req s))))"
    if "length next < maxScanTokenSize" "dropCR next \<noteq> []"
       "unmarshalRequest D (dropCR next) = Inr req"
    using that by (simp add: split_beta)
  have shape: "fst (handleConnection D P (raw # rest) s) =
       Write ?e # map encodeEvent (encoded (fst (handleConnection D P rest s))) @ [Close]"
    using head [of rest] handleConnection_events [of D P rest s] by simp
  show ?thesis
    using head [of rest] head [of "next # later"] nxt shape
      handleConnection_skip [of blank D P rest s]
      handleConnection_too_long [of long D P rest s]
    by simp
qed

theorem malformed_line_answered_and_connection_continues_witness:
  \<open>length ''{"method":'' < maxScanTokenSize \<and> dropCR ''{"method":'' \<noteq> []
   \<and> unmarshalRequest sampleDecoder (dropCR ''{"method":'') = Inl ''unexpected end of JSON input''
   \<and> length startLine < maxScanTokenSize \<and> dropCR startLine \<noteq> []
   \<and> unmarshalRequest sampleDecoder (dropCR startLine) = Inr startRequest
   \<and> dropCR [CHR 0x0D] = []
   \<and> maxScanTokenSize \<le> length (replicate 70000 (CHR ''{''))
   \<and> handleConnection sampleDecoder cannedPlugin [''{"method":'', startLine] (freshServer allOk) =
       ([Write \<lparr>Success = False, Result = [],
                 Error = ''invalid request format: unexpected end of JSON input''\<rparr>,
         Write \<lparr>Success = True, Result = [], Error = ''''\<rparr>,
         Close],
        \<lparr>plugin = allOk, invoked = [CallStart]\<rparr>)
   \<and> handleConnection sampleDecoder cannedPlugin [[CHR 0x0D], startLine] (freshServer allOk) =
       handleConnection sampleDecoder cannedPlugin [startLine] (freshServer allOk)
   \<and> handleConnection sampleDecoder cannedPlugin [replicate 70000 (CHR ''{''), startLine]
        (freshServer allOk) = ([Close], freshServer allOk)\<close>
proof -
  let ?bad = \<open>''{"method":''\<close>
  let ?long = "replicate 70000 (CHR ''{'')"
  have f: "length ?bad < maxScanTokenSize" by (simp add: maxScanTokenSize_def)
  have c: "dropCR ?bad = ?bad" by (simp add: dropCR_def)
  have n: "dropCR ?bad \<noteq> []" by (simp add: c)
  have e: "unmarshalRequest sampleDecoder (dropCR ?bad) = Inl ''unexpected end of JSON input''"
    unfolding c by (simp add: sampleDecoder_def tableDecoder_def)
  have f2: "length startLine < maxScanTokenSize" using scans_startLine by (simp add: not_le)
  have n2: "dropCR startLine \<noteq> []" using scans_startLine by simp
  have d: "unmarshalRequest sampleDecoder (dropCR startLine) = Inr startRequest"
    using scans_startLine decode_startLine by simp
  have cr: "dropCR [CHR 0x0D] = []" by (simp add: dropCR_def)
  have big: "maxScanTokenSize \<le> length ?long" by (simp add: maxScanTokenSize_def)
  have r: "handleRequest sampleDecoder cannedPlugin startRequest (freshServer allOk) =
           (\<lparr>Success = True, Result = [], Error = ''''\<rparr>, \<lparr>plugin = allOk, invoked = [CallStart]\<rparr>)"
    using start_allOk [of "[]"] by (simp add: freshServer_def)
  note t = malformed_line_answered_and_connection_continues
    [OF f n e, of cannedPlugin "[startLine]" "freshServer allOk" startLine startRequest "[]"
       "[CHR 0x0D]" ?long]
  have one: "handleConnection sampleDecoder cannedPlugin [?bad, startLine] (freshServer allOk) =
       ([Write \<lparr>Success = False, Result = [],
                 Error = ''invalid request format: unexpected end of JSON input''\<rparr>,
         Write \<lparr>Success = True, Result = [], Error = ''''\<rparr>,
         Close],
        \<lparr>plugin = allOk, invoked = [CallStart]\<rparr>)"
    using t f2 n2 d by (simp add: r encodeEvent_def)
  have two: "handleConnection sampleDecoder cannedPlugin [[CHR 0x0D], startLine] (freshServer allOk) =
       handleConnection sampleDecoder cannedPlugin [startLine] (freshServer allOk)"
    using t cr by blast
  have three: "handleConnection sampleDecoder cannedPlugin [?long, startLine] (freshServer allOk)
       = ([Close], freshServer allOk)"
    using t big by blast
  from f n e f2 n2 d cr big one two three show ?thesis by blast
qed

text \<open>
  C10.  An empty line produces no response and changes nothing: a connection behaves as if
  the line had not been sent, whatever the decoder would say about it.  So a peer that
  sends an empty line receives fewer responses than it sent lines.
\<close>

theorem empty_line_skipped_silently:
  "handleConnection D P (xs @ [] # ys) s = handleConnection D P (xs @ ys) s
   \<and> ([] \<in> set lines \<longrightarrow>
        length (responses (fst (handleConnection D P lines s))) < length lines)"
proof
  show "handleConnection D P (xs @ [] # ys) s = handleConnection D P (xs @ ys) s"
  proof (induction xs arbitrary: s)
    case Nil
    show ?case using scans_empty by simp
  next
    case (Cons raw rest)
    show ?case
      by (cases "unmarshalRequest D (dropCR raw)") (simp_all add: Cons.IH split_beta Let_def)
  qed
next
  show "[] \<in> set lines \<longrightarrow>
        length (responses (fst (handleConnection D P lines s))) < length lines"
  proof
    assume "[] \<in> set lines"
    then have "length (filter (\<lambda>l. l \<noteq> []) lines) < length lines"
      by (simp add: length_filter_less)
    then show "length (responses (fst (handleConnection D P lines s))) < length lines"
      using handleConnection_bound [of D P lines s] by simp
  qed
qed

theorem empty_line_skipped_silently_witness:
  "[] \<in> set [healthCheckLine, '''', '''']
   \<and> handleConnection sampleDecoder cannedPlugin ([healthCheckLine] @ [] # ['''']) (freshServer allOk)
       = ([Write \<lparr>Success = True, Result = [(''healthy'', JBool True), (''message'', JStr ''OK'')],
                   Error = ''''\<rparr>, Close],
          \<lparr>plugin = allOk, invoked = [CallHealthCheck ''x'']\<rparr>)
   \<and> length (responses (fst (handleConnection sampleDecoder cannedPlugin
        [healthCheckLine, '''', ''''] (freshServer allOk)))) < length [healthCheckLine, '''', '''']"
proof -
  have m: "[] \<in> set [healthCheckLine, '''', '''']" by simp
  have h: "handleConnection sampleDecoder cannedPlugin [healthCheckLine] (freshServer allOk) =
      ([Write \<lparr>Success = True, Result = [(''healthy'', JBool True), (''message'', JStr ''OK'')],
                Error = ''''\<rparr>, Close],
       \<lparr>plugin = allOk, invoked = [CallHealthCheck ''x'']\<rparr>)"
    using scans_healthCheckLine encodes_health
    by (simp add: decode_healthCheckLine freshServer_def health_allOk encodeEvent_def)
  have k: "handleConnection sampleDecoder cannedPlugin ([healthCheckLine] @ [''''])
             (freshServer allOk) =
           handleConnection sampleDecoder cannedPlugin [healthCheckLine] (freshServer allOk)"
    using empty_line_skipped_silently
      [of sampleDecoder cannedPlugin "[healthCheckLine]" "[]" "freshServer allOk"] by simp
  from empty_line_skipped_silently
    [of sampleDecoder cannedPlugin "[healthCheckLine]" "['''']" "freshServer allOk"
        "[healthCheckLine, '''', '''']"] m k h
  show ?thesis by simp
qed

section \<open>Properties of Serve and Shutdown\<close>

lemma ctxDone_serveStep: "serveStep st = Some st' \<Longrightarrow> ctxDone st' = ctxDone st"
  by (auto simp add: serveStep_def split: servePoint.splits if_splits list.splits acceptReady.splits)

lemma listener_serveStep:
  "serveStep st = Some st' \<Longrightarrow> at st \<noteq> BeforeListen \<Longrightarrow> listener st' = listener st"
  by (auto simp add: serveStep_def split: servePoint.splits if_splits list.splits acceptReady.splits)

lemma at_serveStep:
  "serveStep st = Some st' \<Longrightarrow> ctxDone st \<Longrightarrow> at st \<noteq> BeforeListen \<Longrightarrow>
   at st' = AtSelect \<or> at st' = InAccept \<or> at st' = Returned ReturnedNil"
  by (auto simp add: serveStep_def split: servePoint.splits if_splits list.splits acceptReady.splits)

lemma serveRun_cancelled:
  "ctxDone st \<Longrightarrow> listener st = Listening \<Longrightarrow>
   at st = AtSelect \<or> at st = InAccept \<or> at st = Returned ReturnedNil \<Longrightarrow>
   ctxDone (serveRun n st) \<and> listener (serveRun n st) = Listening
   \<and> (at (serveRun n st) = AtSelect \<or> at (serveRun n st) = InAccept
        \<or> at (serveRun n st) = Returned ReturnedNil)"
proof (induction n arbitrary: st)
  case 0
  then show ?case by simp
next
  case (Suc n)
  show ?case
  proof (cases "serveStep st")
    case None
    then show ?thesis using Suc.prems by simp
  next
    case (Some st')
    have nb: "at st \<noteq> BeforeListen" using Suc.prems(3) by auto
    have "ctxDone st'" using ctxDone_serveStep [OF Some] Suc.prems(1) by simp
    moreover have "listener st' = Listening"
      using listener_serveStep [OF Some nb] Suc.prems(2) by simp
    moreover have "at st' = AtSelect \<or> at st' = InAccept \<or> at st' = Returned ReturnedNil"
      using at_serveStep [OF Some Suc.prems(1) nb] .
    ultimately show ?thesis using Suc.IH [of st'] Some by simp
  qed
qed

lemma closed_cancelled_returns:
  "ctxDone st \<Longrightarrow> listener st = Listening \<Longrightarrow>
   at st = AtSelect \<or> at st = InAccept \<or> at st = Returned ReturnedNil \<Longrightarrow>
   at (serveRun 1 (closeListener st)) = Returned ReturnedNil"
  by (auto simp add: closeListener_def serveStep_def)

text \<open>
  C9.  Let \<^verbatim>\<open>Serve\<close> be blocked in \<^verbatim>\<open>Accept\<close>: the listener is open and nothing is ready.
  It cannot move, and cancelling the context alone leaves it so.  \<^verbatim>\<open>Shutdown\<close> cancels the
  context and closes the listener as well, after which \<^verbatim>\<open>Accept\<close> returns and \<^verbatim>\<open>Serve\<close>
  returns nil in its next step, with no connection arriving.  The same holds however many
  steps \<^verbatim>\<open>Serve\<close> takes between the two statements of \<^verbatim>\<open>Shutdown\<close>.
\<close>

theorem shutdown_unblocks_accept:
  "at st = InAccept \<Longrightarrow> listener st = Listening \<Longrightarrow> ready st = [] \<Longrightarrow>
   serveStep st = None
   \<and> serveStep (cancel st) = None
   \<and> ctxDone (Shutdown st) \<and> listener (Shutdown st) = ListenerClosed
   \<and> serveStep (Shutdown st) = Some ((Shutdown st)\<lparr>at := Returned ReturnedNil\<rparr>)
   \<and> ready (Shutdown st) = []
   \<and> at (serveRun 1 (closeListener (serveRun n (cancel st)))) = Returned ReturnedNil"
proof -
  assume a: "at st = InAccept" and l: "listener st = Listening" and r: "ready st = []"
  have c: "ctxDone (cancel st) \<and> listener (cancel st) = Listening \<and> at (cancel st) = InAccept"
    using a l by (simp add: cancel_def)
  have i: "ctxDone (serveRun n (cancel st)) \<and> listener (serveRun n (cancel st)) = Listening
   \<and> (at (serveRun n (cancel st)) = AtSelect \<or> at (serveRun n (cancel st)) = InAccept
        \<or> at (serveRun n (cancel st)) = Returned ReturnedNil)"
    using serveRun_cancelled [of "cancel st" n] c by simp
  have f: "at (serveRun 1 (closeListener (serveRun n (cancel st)))) = Returned ReturnedNil"
    using closed_cancelled_returns [of "serveRun n (cancel st)"] i by blast
  have "serveStep st = None" using a l r by (simp add: serveStep_def)
  moreover have "serveStep (cancel st) = None" using a l r by (simp add: serveStep_def cancel_def)
  moreover have "ctxDone (Shutdown st) \<and> listener (Shutdown st) = ListenerClosed"
    using l by (simp add: Shutdown_def cancel_def closeListener_def)
  moreover have "serveStep (Shutdown st) = Some ((Shutdown st)\<lparr>at := Returned ReturnedNil\<rparr>)"
    using a l by (simp add: Shutdown_def cancel_def closeListener_def serveStep_def)
  moreover have "ready (Shutdown st) = []"
    using r l by (simp add: Shutdown_def cancel_def closeListener_def)
  ultimately show ?thesis using f by blast
qed

theorem shutdown_unblocks_accept_witness:
  "at blockedInAccept = InAccept \<and> listener blockedInAccept = Listening
   \<and> ready blockedInAccept = []
   \<and> serveRun 1 blockedInAccept = blockedInAccept
   \<and> serveRun 1 (cancel blockedInAccept) = cancel blockedInAccept
   \<and> serveRun 1 (Shutdown blockedInAccept) =
       \<lparr>ctxDone = True, listener = ListenerClosed, portFree = True, ready = [], spawned = 2,
        acceptErrorsPrinted = 0, at = Returned ReturnedNil\<rparr>"
proof -
  have a: "at blockedInAccept = InAccept" by (simp add: blockedInAccept_def)
  have l: "listener blockedInAccept = Listening" by (simp add: blockedInAccept_def)
  have r: "ready blockedInAccept = []" by (simp add: blockedInAccept_def)
  have one: "serveRun 1 s = (case serveStep s of None \<Rightarrow> s | Some s' \<Rightarrow> s')" for s
    by (simp split: option.splits)
  have v: "Shutdown blockedInAccept\<lparr>at := Returned ReturnedNil\<rparr> =
       \<lparr>ctxDone = True, listener = ListenerClosed, portFree = True, ready = [], spawned = 2,
        acceptErrorsPrinted = 0, at = Returned ReturnedNil\<rparr>"
    by (simp add: Shutdown_def cancel_def closeListener_def blockedInAccept_def)
  from shutdown_unblocks_accept [OF a l r, of 0] a l r
  show ?thesis by (simp add: one v)
qed

section \<open>Properties of the resource managers\<close>

subsection \<open>Calls made by the loops of cleanup\<close>

lemma calls_emit [simp]: "calls (emit c b) = calls b @ [c]"
  by (simp add: emit_def)

lemma throwers_emit [simp]: "throwers (emit c b) = throwers b"
  by (simp add: emit_def)

lemma foldl_extends:
  assumes "\<And>b x. \<exists>ext. calls (f b x) = calls b @ ext \<and> (\<forall>c\<in>set ext. Q c)"
  shows "\<exists>ext. calls (foldl f b xs) = calls b @ ext \<and> (\<forall>c\<in>set ext. Q c)"
proof (induction xs arbitrary: b)
  case Nil
  show ?case by simp
next
  case (Cons x xs)
  from assms [of b x] obtain e1 where e1: "calls (f b x) = calls b @ e1" "\<forall>c\<in>set e1. Q c"
    by blast
  from Cons.IH [of "f b x"] obtain e2
    where e2: "calls (foldl f (f b x) xs) = calls (f b x) @ e2" "\<forall>c\<in>set e2. Q c"
    by blast
  have "calls (foldl f b (x # xs)) = calls b @ (e1 @ e2)" using e1 e2 by simp
  moreover have "\<forall>c\<in>set (e1 @ e2). Q c" using e1 e2 by auto
  ultimately show ?case by blast
qed

lemma removeBindings_extends:
  "\<exists>ext. calls (removeBindings b entry) = calls b @ ext \<and> (\<forall>c\<in>set ext. \<forall>h. c \<noteq> CallHandler h)"
  unfolding removeBindings_def
  by (rule foldl_extends) (auto simp add: split_beta)

lemma closeSocket_extends:
  "\<exists>ext. calls (closeSocket b ws) = calls b @ ext \<and> (\<forall>c\<in>set ext. \<forall>h. c \<noteq> CallHandler h)"
  by (simp add: closeSocket_def)

lemma callHandler_calls:
  "calls (callHandler w b h) =
     calls b @ CallHandler h # (case h of
        UserFn f \<Rightarrow> if f \<in> set (throwers b) then [ConsoleWarn w h] else []
      | AbortFn c \<Rightarrow> [Abort c])"
  by (simp add: callHandler_def abortController_def split: callback.splits)

lemma throwers_callHandler [simp]: "throwers (callHandler w b h) = throwers b"
  by (simp add: callHandler_def abortController_def split: callback.splits)

lemma count_callHandler:
  "count_list (calls (callHandler w b h)) (CallHandler g) =
     count_list (calls b) (CallHandler g) + (if h = g then 1 else 0)"
  by (simp add: callHandler_calls split: callback.splits)

lemma callHandler_extends: "\<exists>ext. calls (callHandler w b h) = calls b @ ext \<and> (\<forall>c\<in>set ext. True)"
  by (simp add: callHandler_calls)

lemma count_handlers_loop:
  "count_list (calls (foldl (callHandler w) b hs)) (CallHandler g) =
     count_list (calls b) (CallHandler g) + count_list hs g"
  by (induction hs arbitrary: b) (simp_all add: count_callHandler)

lemma count_no_handler:
  assumes "calls b' = calls b @ ext" and "\<forall>c\<in>set ext. \<forall>h. c \<noteq> CallHandler h"
  shows "count_list (calls b') (CallHandler g) = count_list (calls b) (CallHandler g)"
proof -
  have "CallHandler g \<notin> set ext" using assms(2) by blast
  then have "count_list ext (CallHandler g) = 0" by (simp add: count_list_0_iff)
  then show ?thesis using assms(1) by simp
qed

lemma beforeHandlers_extends:
  "\<exists>ext. calls (beforeHandlers m b) = calls b @ ext \<and> (\<forall>c\<in>set ext. \<forall>h. c \<noteq> CallHandler h)"
proof -
  let ?Q = "\<lambda>c. \<forall>h. c \<noteq> CallHandler h"
  let ?b1 = "emit (ConsoleLog ''[Delve SDK] Starting plugin cleanup'') b"
  let ?b2 = "foldl (\<lambda>b' intervalId. emit (ClearInterval intervalId) b') ?b1 (intervals m)"
  let ?b3 = "foldl (\<lambda>b' timeoutId. emit (ClearTimeout timeoutId) b') ?b2 (timeouts m)"
  let ?b4 = "foldl removeBindings ?b3 (eventListeners m)"
  let ?b5 = "foldl closeSocket ?b4 (websockets m)"
  have s1: "calls ?b1 = calls b @ [ConsoleLog ''[Delve SDK] Starting plugin cleanup'']" by simp
  obtain e2 where e2: "calls ?b2 = calls ?b1 @ e2" "\<forall>c\<in>set e2. ?Q c"
    using foldl_extends [of "\<lambda>b' intervalId. emit (ClearInterval intervalId) b'" ?Q ?b1 "intervals m"]
    by auto
  obtain e3 where e3: "calls ?b3 = calls ?b2 @ e3" "\<forall>c\<in>set e3. ?Q c"
    using foldl_extends [of "\<lambda>b' timeoutId. emit (ClearTimeout timeoutId) b'" ?Q ?b2 "timeouts m"]
    by auto
  obtain e4 where e4: "calls ?b4 = calls ?b3 @ e4" "\<forall>c\<in>set e4. ?Q c"
    using foldl_extends [of removeBindings ?Q ?b3 "eventListeners m"] removeBindings_extends
    by blast
  obtain e5 where e5: "calls ?b5 = calls ?b4 @ e5" "\<forall>c\<in>set e5. ?Q c"
    using foldl_extends [of closeSocket ?Q ?b4 "websockets m"] closeSocket_extends
    by blast
  have "calls ?b5 = calls b @ (ConsoleLog ''[Delve SDK] Starting plugin cleanup'' # e2 @ e3 @ e4 @ e5)"
    using s1 e2(1) e3(1) e4(1) e5(1) by simp
  moreover have "\<forall>c\<in>set (ConsoleLog ''[Delve SDK] Starting plugin cleanup'' # e2 @ e3 @ e4 @ e5). ?Q c"
    using e2(2) e3(2) e4(2) e5(2) by auto
  ultimately show ?thesis unfolding beforeHandlers_def by blast
qed

lemma cleanup_unfold:
  "\<not> isShuttingDown m \<Longrightarrow>
   cleanup (m, b) =
     (m\<lparr>isShuttingDown := True, intervals := [], timeouts := [], eventListeners := [],
        websockets := [], cleanupHandlers := []\<rparr>,
      emit (ConsoleLog ''[Delve SDK] Plugin cleanup completed'')
        (foldl (callHandler ''[Delve SDK] Error in cleanup handler:'') (beforeHandlers m b)
           (cleanupHandlers m)))"
  by (simp add: cleanup_def beforeHandlers_def Let_def)

lemma cleanup_latched: "isShuttingDown (fst st) \<Longrightarrow> cleanup st = st"
  by (cases st) (simp add: cleanup_def)

lemma cleanup_sets_latch: "isShuttingDown (fst (cleanup st))"
  by (cases st) (simp add: cleanup_def Let_def)

lemma handlers_loop_extends:
  "\<exists>ext. calls (foldl (callHandler w) b hs) = calls b @ ext"
  using foldl_extends [of "callHandler w" "\<lambda>c. True" b hs] callHandler_extends by blast

lemma cleanup_extends: "\<exists>ext. calls (snd (cleanup (m, b))) = calls b @ ext"
proof (cases "isShuttingDown m")
  case True
  then show ?thesis by (simp add: cleanup_def)
next
  case False
  obtain e1 where e1: "calls (beforeHandlers m b) = calls b @ e1"
    using beforeHandlers_extends by blast
  obtain e2 where e2: "calls (foldl (callHandler ''[Delve SDK] Error in cleanup handler:'')
        (beforeHandlers m b) (cleanupHandlers m)) = calls (beforeHandlers m b) @ e2"
    using handlers_loop_extends by blast
  show ?thesis using False e1 e2 by (simp add: cleanup_unfold)
qed

lemma cleanup_count:
  assumes "\<not> isShuttingDown m"
  shows "count_list (callsDuring (m, b) (cleanup (m, b))) (CallHandler g) =
           count_list (cleanupHandlers m) g"
proof -
  obtain ext where ext: "calls (snd (cleanup (m, b))) = calls b @ ext"
    using cleanup_extends by blast
  then have d: "callsDuring (m, b) (cleanup (m, b)) = ext" by (simp add: callsDuring_def)
  obtain e1 where e1: "calls (beforeHandlers m b) = calls b @ e1"
      "\<forall>c\<in>set e1. \<forall>h. c \<noteq> CallHandler h"
    using beforeHandlers_extends by blast
  have "count_list (calls (snd (cleanup (m, b)))) (CallHandler g) =
          count_list (calls b) (CallHandler g) + count_list (cleanupHandlers m) g"
    using assms count_no_handler [OF e1]
    by (simp add: cleanup_unfold count_handlers_loop)
  then show ?thesis using ext d by simp
qed


subsection \<open>Invariants of a manager's life\<close>

lemma distinct_setAdd: "distinct xs \<Longrightarrow> distinct (setAdd x xs)"
  by (simp add: setAdd_def)

lemma set_setAdd [simp]: "set (setAdd x xs) = insert x (set xs)"
  by (auto simp add: setAdd_def)

lemma exec_distinct:
  "distinct (cleanupHandlers (fst st)) \<Longrightarrow> distinct (cleanupHandlers (fst (exec st op)))"
  by (cases st; cases op)
    (auto simp add: onCleanup_def setManagedInterval_def setManagedTimeout_def
      addManagedEventListener_def addManagedWebSocket_def clearManagedInterval_def
      clearManagedTimeout_def removeManagedEventListener_def managedFetch_def cleanup_def
      socketClosed_def Let_def distinct_setAdd split: jsArg.splits option.splits)

lemma exec_latch: "isShuttingDown (fst st) \<Longrightarrow> isShuttingDown (fst (exec st op))"
  by (cases st; cases op)
    (auto simp add: onCleanup_def setManagedInterval_def setManagedTimeout_def
      addManagedEventListener_def addManagedWebSocket_def clearManagedInterval_def
      clearManagedTimeout_def removeManagedEventListener_def managedFetch_def cleanup_def
      socketClosed_def Let_def split: jsArg.splits option.splits)

lemma exec_handlers_kept:
  "\<not> isShuttingDown (fst (exec st op)) \<Longrightarrow>
   set (cleanupHandlers (fst st)) \<subseteq> set (cleanupHandlers (fst (exec st op)))
   \<and> (\<forall>h. op = OnCleanup (Function h) \<longrightarrow> h \<in> set (cleanupHandlers (fst (exec st op))))"
  by (cases st; cases op)
    (auto simp add: onCleanup_def setManagedInterval_def setManagedTimeout_def
      addManagedEventListener_def addManagedWebSocket_def clearManagedInterval_def
      clearManagedTimeout_def removeManagedEventListener_def managedFetch_def cleanup_def
      socketClosed_def Let_def split: jsArg.splits option.splits if_splits)

lemma count_distinct: "distinct xs \<Longrightarrow> x \<in> set xs \<Longrightarrow> count_list xs x = 1"
  by (induction xs) auto

lemma run_snoc: "run (ops @ [op]) st = exec (run ops st) op"
  by (simp add: run_def)

lemma run_distinct:
  "distinct (cleanupHandlers (fst st)) \<Longrightarrow> distinct (cleanupHandlers (fst (run ops st)))"
  by (induction ops rule: rev_induct) (simp_all add: run_def exec_distinct)

lemma run_latch: "isShuttingDown (fst st) \<Longrightarrow> isShuttingDown (fst (run ops st))"
  by (induction ops rule: rev_induct) (simp_all add: run_def exec_latch)

lemma run_registered:
  "\<not> isShuttingDown (fst (run ops st)) \<Longrightarrow> OnCleanup (Function h) \<in> set ops \<Longrightarrow>
   h \<in> set (cleanupHandlers (fst (run ops st)))"
proof (induction ops rule: rev_induct)
  case Nil
  then show ?case by simp
next
  case (snoc op ops)
  have open_after: "\<not> isShuttingDown (fst (exec (run ops st) op))"
    using snoc.prems(1) by (simp add: run_snoc)
  then have open_before: "\<not> isShuttingDown (fst (run ops st))"
    using exec_latch by blast
  show ?case
  proof (cases "op = OnCleanup (Function h)")
    case True
    then show ?thesis using exec_handlers_kept [OF open_after] by (simp add: run_snoc)
  next
    case False
    then have "OnCleanup (Function h) \<in> set ops" using snoc.prems(2) by simp
    then have "h \<in> set (cleanupHandlers (fst (run ops st)))"
      using snoc.IH open_before by blast
    then show ?thesis using exec_handlers_kept [OF open_after] by (auto simp add: run_snoc)
  qed
qed

lemma sdk_cleanup_twice:
  "\<not> isShuttingDown (fst (run ops (newSDK, b0))) \<Longrightarrow>
   (\<forall>h. OnCleanup (Function h) \<in> set ops \<longrightarrow>
      count_list (callsDuring (run ops (newSDK, b0)) (cleanup (run ops (newSDK, b0))))
        (CallHandler h) = 1)
   \<and> (\<forall>h\<in>set (cleanupHandlers (fst (run ops (newSDK, b0)))).
      count_list (callsDuring (run ops (newSDK, b0)) (cleanup (run ops (newSDK, b0))))
        (CallHandler h) = 1)
   \<and> calls (snd (cleanup (run ops (newSDK, b0)))) =
       calls (snd (run ops (newSDK, b0)))
         @ callsDuring (run ops (newSDK, b0)) (cleanup (run ops (newSDK, b0)))
   \<and> cleanup (cleanup (run ops (newSDK, b0))) = cleanup (run ops (newSDK, b0))
   \<and> callsDuring (cleanup (run ops (newSDK, b0))) (cleanup (cleanup (run ops (newSDK, b0)))) = []"
proof -
  assume op: "\<not> isShuttingDown (fst (run ops (newSDK, b0)))"
  obtain m b where st: "run ops (newSDK, b0) = (m, b)" by (cases "run ops (newSDK, b0)")
  have o: "\<not> isShuttingDown m" using op st by simp
  have d: "distinct (cleanupHandlers m)"
    using run_distinct [of "(newSDK, b0)" ops] st by (simp add: newSDK_def)
  have once: "count_list (callsDuring (m, b) (cleanup (m, b))) (CallHandler h) = 1"
    if "h \<in> set (cleanupHandlers m)" for h
    using that d by (simp add: cleanup_count [OF o] count_distinct)
  have reg: "h \<in> set (cleanupHandlers m)" if "OnCleanup (Function h) \<in> set ops" for h
    using run_registered [OF op that] st by simp
  obtain ext where ext: "calls (snd (cleanup (m, b))) = calls b @ ext"
    using cleanup_extends by blast
  have pre: "calls (snd (cleanup (m, b))) = calls b @ callsDuring (m, b) (cleanup (m, b))"
    using ext by (simp add: callsDuring_def)
  have again: "cleanup (cleanup (m, b)) = cleanup (m, b)"
    using cleanup_latched [OF cleanup_sets_latch] .
  have none: "callsDuring (cleanup (m, b)) (cleanup (cleanup (m, b))) = []"
    by (simp add: again callsDuring_def)
  show ?thesis unfolding st using once reg pre again none by auto
qed


lemmas sdk_defs =
  onCleanup_def setManagedInterval_def setManagedTimeout_def addManagedEventListener_def
  addManagedWebSocket_def clearManagedInterval_def clearManagedTimeout_def
  removeManagedEventListener_def managedFetch_def socketClosed_def pushBinding_def
  setAdd_def setDelete_def emit_def

lemma run_sampleOps:
  "run sampleOps (newSDK, newBrowser) =
     (\<lparr>cleanupHandlers = [UserFn 3, UserFn 4, AbortFn 0], isShuttingDown = False,
       intervals = [1], timeouts = [], eventListeners = [(20, [(''resize'', 21, 22)])],
       websockets = [7, 8]\<rparr>,
      \<lparr>calls = [SetInterval 10 1000 1, SocketOnClose 7, SocketOnClose 8,
                AddEventListener 20 ''resize'' 21 22, NewAbortController 0,
                Fetch ''/api/status'' 0],
       nextHandle = 2, nextController = 1, sockets = [(7, OPEN), (8, CLOSED)], aborted = [],
       throwers = [3]\<rparr>)"
  by (simp add: run_def sampleOps_def newSDK_def newBrowser_def sdk_defs)

lemma cleanup_sampleOps:
  "cleanup (run sampleOps (newSDK, newBrowser)) =
     (\<lparr>cleanupHandlers = [], isShuttingDown = True, intervals = [], timeouts = [],
       eventListeners = [], websockets = []\<rparr>,
      \<lparr>calls = [SetInterval 10 1000 1, SocketOnClose 7, SocketOnClose 8,
                AddEventListener 20 ''resize'' 21 22, NewAbortController 0,
                Fetch ''/api/status'' 0,
                ConsoleLog ''[Delve SDK] Starting plugin cleanup'',
                ClearInterval 1,
                RemoveEventListener 20 ''resize'' 21 (Some 22),
                SocketClose 7 1000 ''Plugin shutting down'',
                CallHandler (UserFn 3),
                ConsoleWarn ''[Delve SDK] Error in cleanup handler:'' (UserFn 3),
                CallHandler (UserFn 4),
                CallHandler (AbortFn 0), Abort 0,
                ConsoleLog ''[Delve SDK] Plugin cleanup completed''],
       nextHandle = 2, nextController = 1, sockets = [(7, CLOSING), (7, OPEN), (8, CLOSED)],
       aborted = [0], throwers = [3]\<rparr>)"
  unfolding run_sampleOps
  by (simp add: cleanup_def removeBindings_def closeSocket_def stateOf_def callHandler_def
      abortController_def setAdd_def emit_def)

subsection \<open>After the latch\<close>

lemma registration_ignores_latch:
  "isRegistration op \<Longrightarrow>
   exec (m\<lparr>isShuttingDown := True\<rparr>, b) op =
     (case exec (m\<lparr>isShuttingDown := False\<rparr>, b) op of
        (m', b') \<Rightarrow> (m'\<lparr>isShuttingDown := True\<rparr>, b'))"
  by (cases op)
    (auto simp add: onCleanup_def setManagedInterval_def setManagedTimeout_def
      addManagedEventListener_def addManagedWebSocket_def managedFetch_def Let_def
      split: jsArg.splits)

lemma exec_no_release:
  "isShuttingDown (fst st) \<Longrightarrow> \<not> explicitRelease op \<Longrightarrow>
   filter isRelease (calls (snd (exec st op))) = filter isRelease (calls (snd st))
   \<and> set (intervals (fst st)) \<subseteq> set (intervals (fst (exec st op)))
   \<and> set (timeouts (fst st)) \<subseteq> set (timeouts (fst (exec st op)))
   \<and> set (websockets (fst st)) \<subseteq> set (websockets (fst (exec st op)))
   \<and> set (cleanupHandlers (fst st)) \<subseteq> set (cleanupHandlers (fst (exec st op)))"
  by (cases st; cases op)
    (auto simp add: onCleanup_def setManagedInterval_def setManagedTimeout_def
      addManagedEventListener_def addManagedWebSocket_def managedFetch_def cleanup_def Let_def
      split: jsArg.splits)

lemma run_no_release:
  "isShuttingDown (fst st) \<Longrightarrow> \<forall>op\<in>set ops. \<not> explicitRelease op \<Longrightarrow>
   filter isRelease (calls (snd (run ops st))) = filter isRelease (calls (snd st))
   \<and> set (intervals (fst st)) \<subseteq> set (intervals (fst (run ops st)))
   \<and> set (timeouts (fst st)) \<subseteq> set (timeouts (fst (run ops st)))
   \<and> set (websockets (fst st)) \<subseteq> set (websockets (fst (run ops st)))
   \<and> set (cleanupHandlers (fst st)) \<subseteq> set (cleanupHandlers (fst (run ops st)))"
proof (induction ops rule: rev_induct)
  case Nil
  show ?case by (simp add: run_def)
next
  case (snoc op ops)
  have l: "isShuttingDown (fst (run ops st))" using run_latch [OF snoc.prems(1)] .
  have n: "\<not> explicitRelease op" using snoc.prems(2) by simp
  have ih: "filter isRelease (calls (snd (run ops st))) = filter isRelease (calls (snd st))
   \<and> set (intervals (fst st)) \<subseteq> set (intervals (fst (run ops st)))
   \<and> set (timeouts (fst st)) \<subseteq> set (timeouts (fst (run ops st)))
   \<and> set (websockets (fst st)) \<subseteq> set (websockets (fst (run ops st)))
   \<and> set (cleanupHandlers (fst st)) \<subseteq> set (cleanupHandlers (fst (run ops st)))"
    using snoc.IH snoc.prems by simp
  show ?case using exec_no_release [OF l n] ih unfolding run_snoc by auto
qed

text \<open>
  C8.  Once \<^verbatim>\<open>isShuttingDown\<close> is set it stays set whatever is called afterwards, and every
  later \<^verbatim>\<open>cleanup()\<close> leaves manager and surroundings as they are.  Registering still
  works, exactly as before the latch.  So what is registered after the latch stays in its
  registry and is never released by \<^verbatim>\<open>cleanup()\<close>: unless the caller releases a resource
  by its handle, or a socket is closed by its peer, no timer is cleared, no listener removed,
  no socket closed, no request aborted and no handler run.
\<close>

theorem cleanup_latch_is_final:
  "isShuttingDown (fst st) \<Longrightarrow>
   isShuttingDown (fst (run ops st))
   \<and> cleanup (run ops st) = run ops st
   \<and> (isRegistration op \<longrightarrow>
        exec (m\<lparr>isShuttingDown := True\<rparr>, b) op =
          (case exec (m\<lparr>isShuttingDown := False\<rparr>, b) op of
             (m', b') \<Rightarrow> (m'\<lparr>isShuttingDown := True\<rparr>, b')))
   \<and> ((\<forall>op\<in>set ops. \<not> explicitRelease op) \<longrightarrow>
        filter isRelease (calls (snd (run ops st))) = filter isRelease (calls (snd st))
        \<and> set (intervals (fst st)) \<subseteq> set (intervals (fst (run ops st)))
        \<and> set (timeouts (fst st)) \<subseteq> set (timeouts (fst (run ops st)))
        \<and> set (websockets (fst st)) \<subseteq> set (websockets (fst (run ops st)))
        \<and> set (cleanupHandlers (fst st)) \<subseteq> set (cleanupHandlers (fst (run ops st))))"
  using run_latch [of st ops] cleanup_latched [of "run ops st"]
    registration_ignores_latch [of op m b] run_no_release [of st ops]
  by blast

theorem cleanup_latch_is_final_witness:
  "isShuttingDown (fst (cleanup (newSDK, newBrowser)))
   \<and> filter explicitRelease lateOps = []
   \<and> isRegistration (SetManagedInterval 11 500)
   \<and> run lateOps (cleanup (newSDK, newBrowser)) =
       (\<lparr>cleanupHandlers = [UserFn 5], isShuttingDown = True, intervals = [1], timeouts = [],
         eventListeners = [], websockets = [7]\<rparr>,
        \<lparr>calls = [ConsoleLog ''[Delve SDK] Starting plugin cleanup'',
                  ConsoleLog ''[Delve SDK] Plugin cleanup completed'',
                  SetInterval 11 500 1, SocketOnClose 7],
         nextHandle = 2, nextController = 0, sockets = [(7, OPEN), (8, CLOSED)], aborted = [],
         throwers = [3]\<rparr>)
   \<and> filter isRelease (calls (snd (run lateOps (cleanup (newSDK, newBrowser))))) = []"
proof -
  have c: "cleanup (newSDK, newBrowser) =
      (newSDK\<lparr>isShuttingDown := True\<rparr>,
       newBrowser\<lparr>calls := [ConsoleLog ''[Delve SDK] Starting plugin cleanup'',
                  ConsoleLog ''[Delve SDK] Plugin cleanup completed'']\<rparr>)"
    by (simp add: cleanup_def newSDK_def newBrowser_def emit_def)
  have l: "isShuttingDown (fst (cleanup (newSDK, newBrowser)))" by (simp add: c)
  have n: "\<forall>op\<in>set lateOps. \<not> explicitRelease op" by (simp add: lateOps_def)
  have g: "isRegistration (SetManagedInterval 11 500)" by simp
  have r: "run lateOps (cleanup (newSDK, newBrowser)) =
       (\<lparr>cleanupHandlers = [UserFn 5], isShuttingDown = True, intervals = [1], timeouts = [],
         eventListeners = [], websockets = [7]\<rparr>,
        \<lparr>calls = [ConsoleLog ''[Delve SDK] Starting plugin cleanup'',
                  ConsoleLog ''[Delve SDK] Plugin cleanup completed'',
                  SetInterval 11 500 1, SocketOnClose 7],
         nextHandle = 2, nextController = 0, sockets = [(7, OPEN), (8, CLOSED)], aborted = [],
         throwers = [3]\<rparr>)"
    unfolding c
    by (simp add: run_def lateOps_def newSDK_def newBrowser_def sdk_defs cleanup_def)
  have f: "filter isRelease (calls (snd (cleanup (newSDK, newBrowser)))) = []"
    by (simp add: c)
  from cleanup_latch_is_final [OF l, of lateOps "SetManagedInterval 11 500"] n f
  have "filter isRelease (calls (snd (run lateOps (cleanup (newSDK, newBrowser))))) = []"
    by simp
  moreover have "filter explicitRelease lateOps = []" by (simp add: lateOps_def)
  ultimately show ?thesis using l g r by blast
qed

subsection \<open>The same for the dashboard's manager\<close>

lemma abortPending_extends:
  "\<exists>ext. calls (abortPending b c) = calls b @ ext \<and> (\<forall>x\<in>set ext. \<forall>h. x \<noteq> CallHandler h)"
  by (simp add: abortPending_def abortController_def)

lemma rmBeforeHandlers_extends:
  "\<exists>ext. calls (rmBeforeHandlers m b) = calls b @ ext \<and> (\<forall>c\<in>set ext. \<forall>h. c \<noteq> CallHandler h)"
proof -
  let ?Q = "\<lambda>c. \<forall>h. c \<noteq> CallHandler h"
  let ?b1 = "emit (ConsoleLog ''[GitHub Dashboard] Starting cleanup'') b"
  let ?b2 = "foldl (\<lambda>b' id. emit (ClearInterval id) b') ?b1 (rmIntervals m)"
  let ?b3 = "foldl (\<lambda>b' id. emit (ClearTimeout id) b') ?b2 (rmTimeouts m)"
  let ?b4 = "foldl removeBindings ?b3 (rmEventListeners m)"
  let ?b5 = "foldl abortPending ?b4 (abortControllers m)"
  have s1: "calls ?b1 = calls b @ [ConsoleLog ''[GitHub Dashboard] Starting cleanup'']" by simp
  obtain e2 where e2: "calls ?b2 = calls ?b1 @ e2" "\<forall>c\<in>set e2. ?Q c"
    using foldl_extends [of "\<lambda>b' id. emit (ClearInterval id) b'" ?Q ?b1 "rmIntervals m"]
    by auto
  obtain e3 where e3: "calls ?b3 = calls ?b2 @ e3" "\<forall>c\<in>set e3. ?Q c"
    using foldl_extends [of "\<lambda>b' id. emit (ClearTimeout id) b'" ?Q ?b2 "rmTimeouts m"]
    by auto
  obtain e4 where e4: "calls ?b4 = calls ?b3 @ e4" "\<forall>c\<in>set e4. ?Q c"
    using foldl_extends [of removeBindings ?Q ?b3 "rmEventListeners m"] removeBindings_extends
    by blast
  obtain e5 where e5: "calls ?b5 = calls ?b4 @ e5" "\<forall>c\<in>set e5. ?Q c"
    using foldl_extends [of abortPending ?Q ?b4 "abortControllers m"] abortPending_extends
    by blast
  have "calls ?b5 = calls b @ (ConsoleLog ''[GitHub Dashboard] Starting cleanup'' # e2 @ e3 @ e4 @ e5)"
    using s1 e2(1) e3(1) e4(1) e5(1) by simp
  moreover have "\<forall>c\<in>set (ConsoleLog ''[GitHub Dashboard] Starting cleanup'' # e2 @ e3 @ e4 @ e5). ?Q c"
    using e2(2) e3(2) e4(2) e5(2) by auto
  ultimately show ?thesis unfolding rmBeforeHandlers_def by blast
qed

lemma rmCleanup_unfold:
  "\<not> rmIsShuttingDown m \<Longrightarrow>
   rmCleanup (m, b) =
     (m\<lparr>rmIsShuttingDown := True, rmIntervals := [], rmTimeouts := [], rmEventListeners := [],
        abortControllers := [], rmCleanupHandlers := []\<rparr>,
      emit (ConsoleLog ''[GitHub Dashboard] Cleanup completed'')
        (foldl (callHandler ''[GitHub Dashboard] Error in cleanup handler:'')
           (rmBeforeHandlers m b) (rmCleanupHandlers m)))"
  by (simp add: rmCleanup_def rmBeforeHandlers_def Let_def)

lemma rmCleanup_latched: "rmIsShuttingDown (fst st) \<Longrightarrow> rmCleanup st = st"
  by (cases st) (simp add: rmCleanup_def)

lemma rmCleanup_sets_latch: "rmIsShuttingDown (fst (rmCleanup st))"
  by (cases st) (simp add: rmCleanup_def Let_def)

lemma rmCleanup_extends: "\<exists>ext. calls (snd (rmCleanup (m, b))) = calls b @ ext"
proof (cases "rmIsShuttingDown m")
  case True
  then show ?thesis by (simp add: rmCleanup_def)
next
  case False
  obtain e1 where e1: "calls (rmBeforeHandlers m b) = calls b @ e1"
    using rmBeforeHandlers_extends by blast
  obtain e2 where e2: "calls (foldl (callHandler ''[GitHub Dashboard] Error in cleanup handler:'')
        (rmBeforeHandlers m b) (rmCleanupHandlers m)) = calls (rmBeforeHandlers m b) @ e2"
    using handlers_loop_extends by blast
  show ?thesis using False e1 e2 by (simp add: rmCleanup_unfold)
qed

lemma rmCleanup_count:
  assumes "\<not> rmIsShuttingDown m"
  shows "count_list (callsDuring (m, b) (rmCleanup (m, b))) (CallHandler g) =
           count_list (rmCleanupHandlers m) g"
proof -
  obtain ext where ext: "calls (snd (rmCleanup (m, b))) = calls b @ ext"
    using rmCleanup_extends by blast
  then have d: "callsDuring (m, b) (rmCleanup (m, b)) = ext" by (simp add: callsDuring_def)
  obtain e1 where e1: "calls (rmBeforeHandlers m b) = calls b @ e1"
      "\<forall>c\<in>set e1. \<forall>h. c \<noteq> CallHandler h"
    using rmBeforeHandlers_extends by blast
  have "count_list (calls (snd (rmCleanup (m, b)))) (CallHandler g) =
          count_list (calls b) (CallHandler g) + count_list (rmCleanupHandlers m) g"
    using assms count_no_handler [OF e1]
    by (simp add: rmCleanup_unfold count_handlers_loop)
  then show ?thesis using ext d by simp
qed

lemmas rm_defs =
  rmOnCleanup_def rmSetManagedInterval_def rmSetManagedTimeout_def
  rmAddManagedEventListener_def rmManagedFetch_def rmFetchSettled_def

lemma rmExec_distinct:
  "distinct (rmCleanupHandlers (fst st)) \<Longrightarrow> distinct (rmCleanupHandlers (fst (rmExec st op)))"
  by (cases st; cases op)
    (auto simp add: rm_defs rmCleanup_def Let_def distinct_setAdd split: jsArg.splits)

lemma rmExec_latch: "rmIsShuttingDown (fst st) \<Longrightarrow> rmIsShuttingDown (fst (rmExec st op))"
  by (cases st; cases op) (auto simp add: rm_defs rmCleanup_def Let_def split: jsArg.splits)

lemma rmExec_handlers_kept:
  "\<not> rmIsShuttingDown (fst (rmExec st op)) \<Longrightarrow>
   set (rmCleanupHandlers (fst st)) \<subseteq> set (rmCleanupHandlers (fst (rmExec st op)))
   \<and> (\<forall>h. op = RmOnCleanup (Function h) \<longrightarrow> h \<in> set (rmCleanupHandlers (fst (rmExec st op))))"
  by (cases st; cases op)
    (auto simp add: rm_defs rmCleanup_def Let_def split: jsArg.splits if_splits)

lemma rmRun_snoc: "rmRun (ops @ [op]) st = rmExec (rmRun ops st) op"
  by (simp add: rmRun_def)

lemma rmRun_distinct:
  "distinct (rmCleanupHandlers (fst st)) \<Longrightarrow> distinct (rmCleanupHandlers (fst (rmRun ops st)))"
  by (induction ops rule: rev_induct) (simp_all add: rmRun_def rmExec_distinct)

lemma rmRun_registered:
  "\<not> rmIsShuttingDown (fst (rmRun ops st)) \<Longrightarrow> RmOnCleanup (Function h) \<in> set ops \<Longrightarrow>
   h \<in> set (rmCleanupHandlers (fst (rmRun ops st)))"
proof (induction ops rule: rev_induct)
  case Nil
  then show ?case by simp
next
  case (snoc op ops)
  have open_after: "\<not> rmIsShuttingDown (fst (rmExec (rmRun ops st) op))"
    using snoc.prems(1) by (simp add: rmRun_snoc)
  then have open_before: "\<not> rmIsShuttingDown (fst (rmRun ops st))"
    using rmExec_latch by blast
  show ?case
  proof (cases "op = RmOnCleanup (Function h)")
    case True
    then show ?thesis using rmExec_handlers_kept [OF open_after] by (simp add: rmRun_snoc)
  next
    case False
    then have "RmOnCleanup (Function h) \<in> set ops" using snoc.prems(2) by simp
    then have "h \<in> set (rmCleanupHandlers (fst (rmRun ops st)))"
      using snoc.IH open_before by blast
    then show ?thesis using rmExec_handlers_kept [OF open_after] by (auto simp add: rmRun_snoc)
  qed
qed

lemma rm_cleanup_twice:
  "\<not> rmIsShuttingDown (fst (rmRun ops (newResourceManager, b0))) \<Longrightarrow>
   (\<forall>h. RmOnCleanup (Function h) \<in> set ops \<longrightarrow>
      count_list (callsDuring (rmRun ops (newResourceManager, b0))
                              (rmCleanup (rmRun ops (newResourceManager, b0))))
        (CallHandler h) = 1)
   \<and> (\<forall>h\<in>set (rmCleanupHandlers (fst (rmRun ops (newResourceManager, b0)))).
      count_list (callsDuring (rmRun ops (newResourceManager, b0))
                              (rmCleanup (rmRun ops (newResourceManager, b0))))
        (CallHandler h) = 1)
   \<and> calls (snd (rmCleanup (rmRun ops (newResourceManager, b0)))) =
       calls (snd (rmRun ops (newResourceManager, b0)))
         @ callsDuring (rmRun ops (newResourceManager, b0))
                       (rmCleanup (rmRun ops (newResourceManager, b0)))
   \<and> rmCleanup (rmCleanup (rmRun ops (newResourceManager, b0))) =
       rmCleanup (rmRun ops (newResourceManager, b0))
   \<and> callsDuring (rmCleanup (rmRun ops (newResourceManager, b0)))
                  (rmCleanup (rmCleanup (rmRun ops (newResourceManager, b0)))) = []"
proof -
  assume op: "\<not> rmIsShuttingDown (fst (rmRun ops (newResourceManager, b0)))"
  obtain m b where st: "rmRun ops (newResourceManager, b0) = (m, b)"
    by (cases "rmRun ops (newResourceManager, b0)")
  have o: "\<not> rmIsShuttingDown m" using op st by simp
  have d: "distinct (rmCleanupHandlers m)"
    using rmRun_distinct [of "(newResourceManager, b0)" ops] st
    by (simp add: newResourceManager_def)
  have once: "count_list (callsDuring (m, b) (rmCleanup (m, b))) (CallHandler h) = 1"
    if "h \<in> set (rmCleanupHandlers m)" for h
    using that d by (simp add: rmCleanup_count [OF o] count_distinct)
  have reg: "h \<in> set (rmCleanupHandlers m)" if "RmOnCleanup (Function h) \<in> set ops" for h
    using rmRun_registered [OF op that] st by simp
  obtain ext where ext: "calls (snd (rmCleanup (m, b))) = calls b @ ext"
    using rmCleanup_extends by blast
  have pre: "calls (snd (rmCleanup (m, b))) = calls b @ callsDuring (m, b) (rmCleanup (m, b))"
    using ext by (simp add: callsDuring_def)
  have again: "rmCleanup (rmCleanup (m, b)) = rmCleanup (m, b)"
    using rmCleanup_latched [OF rmCleanup_sets_latch] .
  have none: "callsDuring (rmCleanup (m, b)) (rmCleanup (rmCleanup (m, b))) = []"
    by (simp add: again callsDuring_def)
  show ?thesis unfolding st using once reg pre again none by auto
qed

lemma run_rmSampleOps:
  "rmRun rmSampleOps (newResourceManager, newBrowser) =
     (\<lparr>rmCleanupHandlers = [UserFn 3, UserFn 4], rmIsShuttingDown = False, rmIntervals = [],
       rmTimeouts = [1], rmEventListeners = [], abortControllers = [1]\<rparr>,
      \<lparr>calls = [SetTimeout 10 250 1, NewAbortController 0, Fetch ''/user/repos'' 0,
                NewAbortController 1, Fetch ''/rate_limit'' 1],
       nextHandle = 2, nextController = 2, sockets = [(7, OPEN), (8, CLOSED)], aborted = [],
       throwers = [3]\<rparr>)"
  by (simp add: rmRun_def rmSampleOps_def newResourceManager_def newBrowser_def rm_defs
      setAdd_def setDelete_def emit_def)

text \<open>
  C7.  Take a manager in any state its operations lead to from a new instance and in which
  \<^verbatim>\<open>cleanup\<close> has not run yet (either class).  During the first \<^verbatim>\<open>cleanup()\<close> every handler
  passed to \<^verbatim>\<open>onCleanup\<close> before, and every handler in the registry, is called exactly once.
  The second \<^verbatim>\<open>cleanup()\<close> returns the state it was given: it makes no call at all and
  changes no registry.
\<close>

theorem cleanup_twice_runs_handlers_once:
  fixes ops :: "sdkOp list" and rops :: "rmOp list" and b0 :: browser and b0' :: browser
  defines "st \<equiv> run ops (newSDK, b0)"
    and "rst \<equiv> rmRun rops (newResourceManager, b0')"
  shows
  "(\<not> isShuttingDown (fst st) \<longrightarrow>
      (\<forall>h. OnCleanup (Function h) \<in> set ops \<longrightarrow>
         count_list (callsDuring st (cleanup st)) (CallHandler h) = 1)
      \<and> (\<forall>h\<in>set (cleanupHandlers (fst st)).
         count_list (callsDuring st (cleanup st)) (CallHandler h) = 1)
      \<and> calls (snd (cleanup st)) = calls (snd st) @ callsDuring st (cleanup st)
      \<and> cleanup (cleanup st) = cleanup st
      \<and> callsDuring (cleanup st) (cleanup (cleanup st)) = [])
   \<and> (\<not> rmIsShuttingDown (fst rst) \<longrightarrow>
      (\<forall>h. RmOnCleanup (Function h) \<in> set rops \<longrightarrow>
         count_list (callsDuring rst (rmCleanup rst)) (CallHandler h) = 1)
      \<and> (\<forall>h\<in>set (rmCleanupHandlers (fst rst)).
         count_list (callsDuring rst (rmCleanup rst)) (CallHandler h) = 1)
      \<and> calls (snd (rmCleanup rst)) = calls (snd rst) @ callsDuring rst (rmCleanup rst)
      \<and> rmCleanup (rmCleanup rst) = rmCleanup rst
      \<and> callsDuring (rmCleanup rst) (rmCleanup (rmCleanup rst)) = [])"
  unfolding st_def rst_def
  using sdk_cleanup_twice [of ops b0] rm_cleanup_twice [of rops b0'] by blast

theorem cleanup_twice_runs_handlers_once_witness:
  "\<not> isShuttingDown (fst (run sampleOps (newSDK, newBrowser)))
   \<and> OnCleanup (Function (UserFn 4)) \<in> set sampleOps
   \<and> UserFn 3 \<in> set (cleanupHandlers (fst (run sampleOps (newSDK, newBrowser))))
   \<and> \<not> rmIsShuttingDown (fst (rmRun rmSampleOps (newResourceManager, newBrowser)))
   \<and> RmOnCleanup (Function (UserFn 4)) \<in> set rmSampleOps
   \<and> UserFn 3 \<in> set (rmCleanupHandlers (fst (rmRun rmSampleOps (newResourceManager, newBrowser))))
   \<and> count_list (callsDuring (run sampleOps (newSDK, newBrowser))
          (cleanup (run sampleOps (newSDK, newBrowser)))) (CallHandler (UserFn 4)) = 1
   \<and> count_list (callsDuring (run sampleOps (newSDK, newBrowser))
          (cleanup (run sampleOps (newSDK, newBrowser)))) (CallHandler (UserFn 3)) = 1
   \<and> cleanup (cleanup (run sampleOps (newSDK, newBrowser))) =
       cleanup (run sampleOps (newSDK, newBrowser))
   \<and> count_list (callsDuring (rmRun rmSampleOps (newResourceManager, newBrowser))
          (rmCleanup (rmRun rmSampleOps (newResourceManager, newBrowser))))
        (CallHandler (UserFn 4)) = 1
   \<and> count_list (callsDuring (rmRun rmSampleOps (newResourceManager, newBrowser))
          (rmCleanup (rmRun rmSampleOps (newResourceManager, newBrowser))))
        (CallHandler (UserFn 3)) = 1
   \<and> rmCleanup (rmCleanup (rmRun rmSampleOps (newResourceManager, newBrowser))) =
       rmCleanup (rmRun rmSampleOps (newResourceManager, newBrowser))"
proof -
  have o: "\<not> isShuttingDown (fst (run sampleOps (newSDK, newBrowser)))"
    by (simp add: run_sampleOps)
  have r: "OnCleanup (Function (UserFn 4)) \<in> set sampleOps" by (simp add: sampleOps_def)
  have h: "UserFn 3 \<in> set (cleanupHandlers (fst (run sampleOps (newSDK, newBrowser))))"
    by (simp add: run_sampleOps)
  have o': "\<not> rmIsShuttingDown (fst (rmRun rmSampleOps (newResourceManager, newBrowser)))"
    by (simp add: run_rmSampleOps)
  have r': "RmOnCleanup (Function (UserFn 4)) \<in> set rmSampleOps" by (simp add: rmSampleOps_def)
  have h': "UserFn 3 \<in> set (rmCleanupHandlers (fst (rmRun rmSampleOps (newResourceManager, newBrowser))))"
    by (simp add: run_rmSampleOps)
  from cleanup_twice_runs_handlers_once [of sampleOps newBrowser rmSampleOps newBrowser]
    o r h o' r' h'
  show ?thesis by blast
qed

end
